theory Spec2Isabelle
  imports Main
begin

section \<open>Python strings and the character classes of the \<open>re\<close> module\<close>

text \<open>
  A Python \<open>str\<close> is a sequence of Unicode code points, so a string is a list of
  natural numbers; \<open>ustr\<close> turns an ASCII literal into such a list.
\<close>

type_synonym ustring = "nat list"

definition ustr :: "string \<Rightarrow> ustring" where
  "ustr s = map of_char s"

text \<open>
  The interpreter's Unicode tables are not part of the repository. The classification of
  the ASCII range is fixed and written out; the classification of every code point from
  128 on is a parameter.
\<close>

record ucd =
  ucd_decimal :: "nat \<Rightarrow> bool"
  ucd_space :: "nat \<Rightarrow> bool"
  ucd_alnum :: "nat \<Rightarrow> bool"

definition isdecimal :: "ucd \<Rightarrow> nat \<Rightarrow> bool" where
  "isdecimal u c = (if c < 128 then 48 \<le> c \<and> c \<le> 57 else ucd_decimal u c)"

definition isspace :: "ucd \<Rightarrow> nat \<Rightarrow> bool" where
  "isspace u c =
     (if c < 128 then (9 \<le> c \<and> c \<le> 13) \<or> (28 \<le> c \<and> c \<le> 32) else ucd_space u c)"

definition isalnum :: "ucd \<Rightarrow> nat \<Rightarrow> bool" where
  "isalnum u c =
     (if c < 128 then (48 \<le> c \<and> c \<le> 57) \<or> (65 \<le> c \<and> c \<le> 90) \<or> (97 \<le> c \<and> c \<le> 122)
      else ucd_alnum u c \<or> ucd_decimal u c)"

definition is_word :: "ucd \<Rightarrow> nat \<Rightarrow> bool" where
  "is_word u c = (isalnum u c \<or> c = 95)"

section \<open>The three patterns as backtracking matchers\<close>

text \<open>
  A matcher state is the character before the current position (none at the start of the
  text) and the text still to be read. A matcher is written in continuation-passing style:
  it returns the state after the first successful way to match, trying the greedy
  alternative first, as the backtracking engine of \<open>re\<close> does.
\<close>

type_synonym mstate = "nat option \<times> ustring"
type_synonym cont = "mstate \<Rightarrow> mstate option"

definition accept :: cont where
  "accept st = Some st"

fun cls :: "(nat \<Rightarrow> bool) \<Rightarrow> cont \<Rightarrow> cont" where
  "cls P k (p, []) = None"
| "cls P k (p, c # cs) = (if P c then k (Some c, cs) else None)"

definition opt :: "(nat \<Rightarrow> bool) \<Rightarrow> cont \<Rightarrow> cont" where
  "opt P k st = (case cls P k st of Some r \<Rightarrow> Some r | None \<Rightarrow> k st)"

fun rep :: "nat \<Rightarrow> (nat \<Rightarrow> bool) \<Rightarrow> cont \<Rightarrow> cont" where
  "rep 0 P k = k"
| "rep (Suc n) P k = cls P (rep n P k)"

fun word_before :: "ucd \<Rightarrow> nat option \<Rightarrow> bool" where
  "word_before u None = False"
| "word_before u (Some c) = is_word u c"

fun word_at :: "ucd \<Rightarrow> ustring \<Rightarrow> bool" where
  "word_at u [] = False"
| "word_at u (c # cs) = is_word u c"

definition at_boundary :: "ucd \<Rightarrow> mstate \<Rightarrow> bool" where
  "at_boundary u st = (word_before u (fst st) \<noteq> word_at u (snd st))"

definition bnd :: "ucd \<Rightarrow> cont \<Rightarrow> cont" where
  "bnd u k st = (if at_boundary u st then k st else None)"

definition dash_dot :: "nat \<Rightarrow> bool" where
  "dash_dot c = (c = 45 \<or> c = 46)"

definition dash_dot_space :: "ucd \<Rightarrow> nat \<Rightarrow> bool" where
  "dash_dot_space u c = (c = 45 \<or> c = 46 \<or> isspace u c)"

text \<open>\<^verbatim>\<open>\(\d{3}\)\s?\d{3}[-.]?\d{4}\<close>\<close>

definition pattern_paren :: "ucd \<Rightarrow> cont" where
  "pattern_paren u =
     cls (\<lambda>c. c = 40) (rep 3 (isdecimal u) (cls (\<lambda>c. c = 41) (opt (isspace u)
       (rep 3 (isdecimal u) (opt dash_dot (rep 4 (isdecimal u) accept))))))"

text \<open>\<^verbatim>\<open>\b\d{3}[-.\s]\d{3}[-.\s]\d{4}\b\<close>\<close>

definition pattern_full :: "ucd \<Rightarrow> cont" where
  "pattern_full u =
     bnd u (rep 3 (isdecimal u) (cls (dash_dot_space u) (rep 3 (isdecimal u)
       (cls (dash_dot_space u) (rep 4 (isdecimal u) (bnd u accept))))))"

text \<open>\<^verbatim>\<open>\b\d{3}[-.]?\d{4}\b\<close>\<close>

definition pattern_short :: "ucd \<Rightarrow> cont" where
  "pattern_short u =
     bnd u (rep 3 (isdecimal u) (opt dash_dot (rep 4 (isdecimal u) (bnd u accept))))"

section \<open>\<open>re.sub\<close> and \<open>redact_phone_numbers\<close>\<close>

text \<open>
  \<open>re.sub\<close> scans the text from left to right. Where the pattern matches, the
  replacement is written and the scan goes on after the match; elsewhere the character is
  copied. None of the three patterns matches the empty string (every match consumes a
  character, lemma \<open>pattern_progress\<close>), so the rules of \<open>re.sub\<close> for empty matches
  are not modelled: a result that consumes nothing is read as no match.
\<close>

function re_sub_from :: "cont \<Rightarrow> ustring \<Rightarrow> nat option \<Rightarrow> ustring \<Rightarrow> ustring" where
  "re_sub_from m repl p [] = []"
| "re_sub_from m repl p (c # cs) =
     (case m (p, c # cs) of
        None \<Rightarrow> c # re_sub_from m repl (Some c) cs
      | Some (q, r) \<Rightarrow>
          if length r < length (c # cs) then repl @ re_sub_from m repl q r
          else c # re_sub_from m repl (Some c) cs)"
  by pat_completeness auto
termination
  by (relation "measure (\<lambda>(m, repl, p, s). length s)") auto

definition re_sub :: "cont \<Rightarrow> ustring \<Rightarrow> ustring \<Rightarrow> ustring" where
  "re_sub m repl s = re_sub_from m repl None s"

definition patterns :: "ucd \<Rightarrow> cont list" where
  "patterns u = [pattern_paren u, pattern_full u, pattern_short u]"

definition redacted_marker :: ustring where
  "redacted_marker = ustr ''[REDACTED]''"

definition redact_phone_numbers :: "ucd \<Rightarrow> ustring \<Rightarrow> ustring" where
  "redact_phone_numbers u text = fold (\<lambda>pattern redacted. re_sub pattern redacted_marker redacted) (patterns u) text"

section \<open>JSON values, dictionaries and the runtime\<close>

text \<open>
  A decoded JSON document. A float is \<open>m * 2 ^ e\<close>, an infinity or not a number; a
  dictionary is an association list whose keys are distinct.
\<close>

datatype pyfloat = Float_finite int int | Float_inf bool | Float_nan

datatype json =
  JNull | JBool bool | JInt int | JFloat pyfloat | JStr ustring
  | JArr "json list" | JObj "(ustring \<times> json) list"

type_synonym pydict = "(ustring \<times> json) list"

datatype exn = AttributeError | KeyError | TypeError | ValueError | RecursionError

text \<open>
  What \<open>json.loads\<close> does with a text: it returns the decoded value, raises
  \<open>JSONDecodeError\<close> (with its message), or raises another exception
  (\<open>RecursionError\<close> for a document nested too deeply, \<open>ValueError\<close> for an integer
  over the digit limit).
\<close>

datatype loaded = Decoded json | JSONDecodeError ustring | Raised exn

text \<open>Python's truth value of a decoded value (\<open>not x\<close> is its negation).\<close>

fun truthy :: "json \<Rightarrow> bool" where
  "truthy JNull = False"
| "truthy (JBool b) = b"
| "truthy (JInt n) = (n \<noteq> 0)"
| "truthy (JFloat f) = (case f of Float_finite m e \<Rightarrow> m \<noteq> 0 | _ \<Rightarrow> True)"
| "truthy (JStr s) = (s \<noteq> [])"
| "truthy (JArr xs) = (xs \<noteq> [])"
| "truthy (JObj kvs) = (kvs \<noteq> [])"

text \<open>\<open>d.get(k)\<close> and \<open>d[k]\<close>.\<close>

definition dict_get :: "pydict \<Rightarrow> ustring \<Rightarrow> json" where
  "dict_get d k = (case map_of d k of None \<Rightarrow> JNull | Some v \<Rightarrow> v)"

definition subscript :: "pydict \<Rightarrow> ustring \<Rightarrow> exn + json" where
  "subscript d k = (case map_of d k of None \<Rightarrow> Inl KeyError | Some v \<Rightarrow> Inr v)"

text \<open>\<open>needle in hay\<close> on strings.\<close>

fun contains :: "ustring \<Rightarrow> ustring \<Rightarrow> bool" where
  "contains needle [] = (needle = [])"
| "contains needle (c # cs) = (take (length needle) (c # cs) = needle \<or> contains needle cs)"

text \<open>\<open>s.strip()\<close>: the text without its leading and trailing whitespace.\<close>

definition str_strip :: "ucd \<Rightarrow> ustring \<Rightarrow> ustring" where
  "str_strip u s = rev (dropWhile (isspace u) (rev (dropWhile (isspace u) s)))"

text \<open>
  The library functions the handlers call and that are not part of the repository:
  \<open>str.lower\<close>, \<open>json.loads\<close>, \<open>json.dumps\<close> and \<open>int\<close> on a string.
\<close>

record runtime =
  unicode :: ucd
  str_lower :: "ustring \<Rightarrow> ustring"
  json_loads :: "ustring \<Rightarrow> loaded"
  json_dumps :: "json \<Rightarrow> ustring"
  str_to_int :: "ustring \<Rightarrow> int option"

section \<open>The API handler (\<open>src/api/handler.py\<close>)\<close>

text \<open>
  The request as API Gateway delivers it: \<open>http_method\<close> is
  \<open>requestContext.http.method\<close>; \<open>body\<close> is \<open>None\<close> when the event has none.
\<close>

record http_event =
  http_method :: ustring
  rawPath :: ustring
  headers :: "(ustring \<times> ustring) list"
  body :: "ustring option"

text \<open>
  What one invocation reads from outside: the environment variable, the two values of
  \<open>uuid.uuid4()\<close>, the clock, and whether \<open>sqs.send_message\<close> raises.
\<close>

record api_env =
  SQS_QUEUE_URL :: "ustring option"
  uuid4_log_id :: ustring
  uuid4_request_id :: ustring
  utcnow_isoformat :: ustring
  send_message_raises :: bool

text \<open>
  The module's global \<open>QUEUE_URL\<close> and the queue: each sent message is its body and its
  message attributes.
\<close>

record api_state =
  QUEUE_URL :: "ustring option"
  sqs_messages :: "(ustring \<times> pydict) list"

definition get_queue_url :: "api_env \<Rightarrow> api_state \<Rightarrow> (exn + ustring) \<times> api_state" where
  "get_queue_url env st =
     (case QUEUE_URL st of
        None \<Rightarrow>
          (let st' = st\<lparr>QUEUE_URL := SQS_QUEUE_URL env\<rparr> in
           case SQS_QUEUE_URL env of
             None \<Rightarrow> (Inl ValueError, st')
           | Some url \<Rightarrow> if url = [] then (Inl ValueError, st') else (Inr url, st'))
      | Some url \<Rightarrow> (Inr url, st))"

text \<open>The header dictionary with its keys in lower case; a later key overwrites an equal earlier one.\<close>

definition lower_keys :: "runtime \<Rightarrow> (ustring \<times> ustring) list \<Rightarrow> ustring \<rightharpoonup> ustring" where
  "lower_keys rt hs = map_of (rev (map (\<lambda>(k, v). (str_lower rt k, v)) hs))"

definition error_response :: "runtime \<Rightarrow> int \<Rightarrow> ustring \<Rightarrow> ustring \<Rightarrow> pydict" where
  "error_response rt code err msg =
     [(ustr ''statusCode'', JInt code),
      (ustr ''body'', JStr (json_dumps rt (JObj [(ustr ''error'', JStr err), (ustr ''message'', JStr msg)]))),
      (ustr ''headers'', JObj [(ustr ''Content-Type'', JStr (ustr ''application/json''))])]"

definition bad_request :: "runtime \<Rightarrow> ustring \<Rightarrow> pydict" where
  "bad_request rt msg = error_response rt 400 (ustr ''Bad Request'') msg"

text \<open>The end of \<open>validate_and_normalize\<close>: generate the missing identifiers, build the message.\<close>

definition make_message ::
  "api_env \<Rightarrow> (ustring \<rightharpoonup> ustring) \<Rightarrow> json \<Rightarrow> json \<Rightarrow> json \<Rightarrow> ustring \<Rightarrow> pydict" where
  "make_message env hdrs tenant_id log_id normalized_text source =
     (let log_id' = (if \<not> truthy log_id then JStr (uuid4_log_id env) else log_id);
          request_id = (case hdrs (ustr ''x-request-id'') of
                          None \<Rightarrow> uuid4_request_id env | Some v \<Rightarrow> v)
      in [(ustr ''tenant_id'', tenant_id),
          (ustr ''log_id'', log_id'),
          (ustr ''normalized_text'', normalized_text),
          (ustr ''source'', JStr source),
          (ustr ''received_at'', JStr (utcnow_isoformat env @ ustr ''Z'')),
          (ustr ''request_id'', JStr request_id)])"

text \<open>
  \<open>validate_and_normalize\<close> returns the pair \<open>(message, error_response)\<close>, one of them
  \<open>None\<close>; \<open>Inl\<close> is an exception that leaves the function: only
  \<open>JSONDecodeError\<close> is caught.
\<close>

definition validate_and_normalize ::
  "runtime \<Rightarrow> api_env \<Rightarrow> http_event \<Rightarrow> exn + (pydict option \<times> pydict option)" where
  "validate_and_normalize rt env event =
     (let hdrs = lower_keys rt (headers event);
          content_type = (case hdrs (ustr ''content-type'') of None \<Rightarrow> [] | Some v \<Rightarrow> v);
          b = (case body event of None \<Rightarrow> [] | Some s \<Rightarrow> s)
      in
      if b = [] \<or> str_strip (unicode rt) b = [] then
        Inr (None, Some (bad_request rt (ustr ''Request body cannot be empty'')))
      else if contains (ustr ''application/json'') content_type then
        (case json_loads rt b of
           JSONDecodeError e \<Rightarrow> Inr (None, Some (bad_request rt (ustr ''Invalid JSON: '' @ e)))
         | Raised e \<Rightarrow> Inl e
         | Decoded payload \<Rightarrow>
             (case payload of
                JObj d \<Rightarrow>
                  (let tenant_id = dict_get d (ustr ''tenant_id'');
                       log_id = dict_get d (ustr ''log_id'');
                       normalized_text = dict_get d (ustr ''text'')
                   in
                   if \<not> truthy tenant_id then
                     Inr (None, Some (bad_request rt (ustr ''tenant_id is required in JSON payload'')))
                   else if \<not> truthy normalized_text then
                     Inr (None, Some (bad_request rt (ustr ''text field is required in JSON payload'')))
                   else
                     Inr (Some (make_message env hdrs tenant_id log_id normalized_text
                                  (ustr ''json_upload'')), None))
              | _ \<Rightarrow> Inl AttributeError))
      else if contains (ustr ''text/plain'') content_type then
        (case hdrs (ustr ''x-tenant-id'') of
           None \<Rightarrow>
             Inr (None, Some (bad_request rt (ustr ''X-Tenant-ID header is required for text/plain requests'')))
         | Some tenant_id \<Rightarrow>
             if tenant_id = [] then
               Inr (None, Some (bad_request rt (ustr ''X-Tenant-ID header is required for text/plain requests'')))
             else
               Inr (Some (make_message env hdrs (JStr tenant_id) JNull (JStr b) (ustr ''text_upload'')), None))
      else
        Inr (None, Some (bad_request rt (ustr ''Content-Type must be application/json or text/plain''))))"

text \<open>
  \<open>publish_to_sqs\<close>: every exception is caught and gives \<open>False\<close>. The log line after
  the send reads \<open>message['request_id']\<close>, still inside the \<open>try\<close>.
\<close>

definition publish_to_sqs ::
  "runtime \<Rightarrow> api_env \<Rightarrow> api_state \<Rightarrow> pydict \<Rightarrow> bool \<times> api_state" where
  "publish_to_sqs rt env st message =
     (case get_queue_url env st of
        (Inl e, st') \<Rightarrow> (False, st')
      | (Inr queue_url, st') \<Rightarrow>
          (case (subscript message (ustr ''tenant_id''), subscript message (ustr ''log_id'')) of
             (Inr tenant_id, Inr log_id) \<Rightarrow>
               if send_message_raises env then (False, st')
               else
                 (let sent = st'\<lparr>sqs_messages := sqs_messages st' @
                    [(json_dumps rt (JObj message),
                      [(ustr ''tenant_id'', JObj [(ustr ''StringValue'', tenant_id), (ustr ''DataType'', JStr (ustr ''String''))]),
                       (ustr ''log_id'', JObj [(ustr ''StringValue'', log_id), (ustr ''DataType'', JStr (ustr ''String''))])])]\<rparr>
                  in case subscript message (ustr ''request_id'') of
                       Inl e \<Rightarrow> (False, sent)
                     | Inr request_id \<Rightarrow> (True, sent))
           | _ \<Rightarrow> (False, st')))"

definition accepted_response :: "runtime \<Rightarrow> pydict \<Rightarrow> pydict" where
  "accepted_response rt message =
     [(ustr ''statusCode'', JInt 202),
      (ustr ''body'', JStr (json_dumps rt (JObj
         [(ustr ''status'', JStr (ustr ''accepted'')),
          (ustr ''log_id'', dict_get message (ustr ''log_id'')),
          (ustr ''request_id'', dict_get message (ustr ''request_id''))]))),
      (ustr ''headers'', JObj [(ustr ''Content-Type'', JStr (ustr ''application/json''))])]"

definition not_found_response :: "runtime \<Rightarrow> pydict" where
  "not_found_response rt =
     [(ustr ''statusCode'', JInt 404),
      (ustr ''body'', JStr (json_dumps rt (JObj [(ustr ''error'', JStr (ustr ''Not Found''))]))),
      (ustr ''headers'', JObj [(ustr ''Content-Type'', JStr (ustr ''application/json''))])]"

text \<open>
  The API's \<open>lambda_handler\<close>: the response, or the exception that leaves it, and the
  state. \<open>validate_and_normalize\<close> never returns \<open>(None, None)\<close>; there
  \<open>publish_to_sqs\<close> would catch the \<open>TypeError\<close> of \<open>message['tenant_id']\<close> and
  raise from its own \<open>message.get\<close>.
\<close>

definition api_lambda_handler ::
  "runtime \<Rightarrow> api_env \<Rightarrow> api_state \<Rightarrow> http_event \<Rightarrow> (exn + pydict) \<times> api_state" where
  "api_lambda_handler rt env st event =
     (if http_method event \<noteq> ustr ''POST'' \<or> rawPath event \<noteq> ustr ''/ingest'' then
        (Inr (not_found_response rt), st)
      else
        (case validate_and_normalize rt env event of
           Inl e \<Rightarrow> (Inl e, st)
         | Inr (_, Some error_resp) \<Rightarrow> (Inr error_resp, st)
         | Inr (None, None) \<Rightarrow> (Inl AttributeError, snd (get_queue_url env st))
         | Inr (Some message, None) \<Rightarrow>
             (case publish_to_sqs rt env st message of
                (False, st') \<Rightarrow>
                  (Inr (error_response rt 500 (ustr ''Internal Server Error'')
                          (ustr ''Failed to publish message to queue'')), st')
              | (True, st') \<Rightarrow> (Inr (accepted_response rt message), st'))))"

section \<open>The worker (\<open>src/worker/handler.py\<close>)\<close>

text \<open>One record of an SQS batch; \<open>record_body\<close> is its \<open>body\<close>.\<close>

record sqs_record =
  messageId :: ustring
  receiptHandle :: ustring
  record_body :: ustring
  attributes :: "(ustring \<times> ustring) list"

text \<open>
  What the worker reads from outside: the environment variable and, for the record at
  each position of the batch, the clock and whether \<open>table.put_item\<close> raises.
\<close>

record worker_env =
  DYNAMODB_TABLE_NAME :: "ustring option"
  utcnow_at :: "nat \<Rightarrow> ustring"
  put_item_raises :: "nat \<Rightarrow> bool"

text \<open>
  The module's globals \<open>TABLE_NAME\<close> and \<open>table\<close> (\<open>table_bound\<close>: it is a table handle,
  not \<open>None\<close>) and the items of the table.
\<close>

record worker_state =
  TABLE_NAME :: "ustring option"
  table_bound :: bool
  stored :: "pydict list"

definition get_dynamodb_table :: "worker_env \<Rightarrow> worker_state \<Rightarrow> (exn + bool) \<times> worker_state" where
  "get_dynamodb_table env st =
     (case TABLE_NAME st of
        None \<Rightarrow>
          (let st' = st\<lparr>TABLE_NAME := DYNAMODB_TABLE_NAME env\<rparr> in
           case DYNAMODB_TABLE_NAME env of
             None \<Rightarrow> (Inl ValueError, st')
           | Some name \<Rightarrow>
               if name = [] then (Inl ValueError, st')
               else (Inr True, st'\<lparr>table_bound := True\<rparr>))
      | Some name \<Rightarrow> (Inr (table_bound st), st))"

text \<open>\<open>len(text)\<close> in \<open>simulate_heavy_processing\<close>; the sleep changes no value.\<close>

fun simulate_heavy_processing :: "json \<Rightarrow> exn + unit" where
  "simulate_heavy_processing (JStr s) = Inr ()"
| "simulate_heavy_processing (JArr xs) = Inr ()"
| "simulate_heavy_processing (JObj kvs) = Inr ()"
| "simulate_heavy_processing v = Inl TypeError"

text \<open>
  Modelled from the spec: the table of the external store, its key and its \<open>put_item\<close>,
  none of which is in the repository's sources. The key of an item is
  \<open>(tenant_id, log_id)\<close> (partition key and sort key, as the comments of
  \<open>store_processed_log\<close> say); a write replaces the whole item that has the same key.
\<close>

definition item_key :: "pydict \<Rightarrow> json option \<times> json option" where
  "item_key item = (map_of item (ustr ''tenant_id''), map_of item (ustr ''log_id''))"

definition put_item :: "pydict list \<Rightarrow> pydict \<Rightarrow> pydict list" where
  "put_item items item = filter (\<lambda>x. item_key x \<noteq> item_key item) items @ [item]"

definition message_keys :: "ustring list" where
  "message_keys = [ustr ''tenant_id'', ustr ''log_id'', ustr ''source'', ustr ''normalized_text'',
     ustr ''received_at'', ustr ''request_id'']"

text \<open>The item of \<open>store_processed_log\<close>; \<open>message[k]\<close> raises \<open>KeyError\<close> for a missing key.\<close>

definition build_item ::
  "worker_env \<Rightarrow> nat \<Rightarrow> pydict \<Rightarrow> ustring \<Rightarrow> int \<Rightarrow> ustring \<Rightarrow> exn + pydict" where
  "build_item env i message modified_data attempt worker_id =
     (if list_all (\<lambda>k. map_of message k \<noteq> None) message_keys then
        Inr [(ustr ''tenant_id'', dict_get message (ustr ''tenant_id'')),
             (ustr ''log_id'', dict_get message (ustr ''log_id'')),
             (ustr ''source'', dict_get message (ustr ''source'')),
             (ustr ''original_text'', dict_get message (ustr ''normalized_text'')),
             (ustr ''modified_data'', JStr modified_data),
             (ustr ''processed_at'', JStr (utcnow_at env i @ ustr ''Z'')),
             (ustr ''received_at'', dict_get message (ustr ''received_at'')),
             (ustr ''request_id'', dict_get message (ustr ''request_id'')),
             (ustr ''worker_id'', JStr worker_id),
             (ustr ''attempt'', JInt attempt)]
      else Inl KeyError)"

definition store_processed_log ::
  "worker_env \<Rightarrow> nat \<Rightarrow> worker_state \<Rightarrow> pydict \<Rightarrow> ustring \<Rightarrow> int \<Rightarrow> ustring \<Rightarrow> bool \<times> worker_state" where
  "store_processed_log env i st message modified_data attempt worker_id =
     (case get_dynamodb_table env st of
        (Inl e, st') \<Rightarrow> (False, st')
      | (Inr tbl, st') \<Rightarrow>
          (case build_item env i message modified_data attempt worker_id of
             Inl e \<Rightarrow> (False, st')
           | Inr item \<Rightarrow>
               if \<not> tbl then (False, st')
               else if put_item_raises env i then (False, st')
               else (True, st'\<lparr>stored := put_item (stored st') item\<rparr>)))"

text \<open>
  \<open>process_message\<close>: \<open>Inr\<close> is the returned flag. A body that is not a dictionary has no
  \<open>get\<close>: the \<open>AttributeError\<close> is caught, raised again by the handler's own
  \<open>message_body.get\<close>, and leaves the function.
\<close>

definition process_message ::
  "runtime \<Rightarrow> worker_env \<Rightarrow> nat \<Rightarrow> worker_state \<Rightarrow> json \<Rightarrow> ustring \<Rightarrow> ustring \<Rightarrow> int
     \<Rightarrow> (exn + bool) \<times> worker_state" where
  "process_message rt env i st message_body receipt_handle worker_id attempt =
     (case message_body of
        JObj d \<Rightarrow>
          (let normalized_text = dict_get d (ustr ''normalized_text'') in
           case simulate_heavy_processing normalized_text of
             Inl e \<Rightarrow> (Inr False, st)
           | Inr _ \<Rightarrow>
               (case normalized_text of
                  JStr t \<Rightarrow>
                    (let modified_data = redact_phone_numbers (unicode rt) t;
                         (success, st') = store_processed_log env i st d modified_data attempt worker_id
                     in if success then (Inr True, st') else (Inr False, st'))
                | _ \<Rightarrow> (Inr False, st)))
      | _ \<Rightarrow> (Inl AttributeError, st))"

definition receive_count :: "runtime \<Rightarrow> sqs_record \<Rightarrow> exn + int" where
  "receive_count rt r =
     (case map_of (attributes r) (ustr ''ApproximateReceiveCount'') of
        None \<Rightarrow> Inr 1
      | Some s \<Rightarrow> (case str_to_int rt s of None \<Rightarrow> Inl ValueError | Some n \<Rightarrow> Inr n))"

text \<open>
  The body of the loop of \<open>lambda_handler\<close> for the record at position \<open>i\<close>: whether the
  record succeeded (it is not added to \<open>batch_item_failures\<close>), and the state. Every
  exception of the \<open>try\<close> block is caught by \<open>except Exception\<close>.
\<close>

definition process_record ::
  "runtime \<Rightarrow> worker_env \<Rightarrow> ustring \<Rightarrow> nat \<Rightarrow> worker_state \<Rightarrow> sqs_record \<Rightarrow> bool \<times> worker_state" where
  "process_record rt env worker_id i st r =
     (case json_loads rt (record_body r) of
        JSONDecodeError e \<Rightarrow> (False, st)
      | Raised e \<Rightarrow> (False, st)
      | Decoded message_body \<Rightarrow>
          (case receive_count rt r of
             Inl e \<Rightarrow> (False, st)
           | Inr attempt \<Rightarrow>
               (case process_message rt env i st message_body (receiptHandle r) worker_id attempt of
                  (Inl e, st') \<Rightarrow> (False, st')
                | (Inr success, st') \<Rightarrow> (success, st'))))"

fun process_records ::
  "runtime \<Rightarrow> worker_env \<Rightarrow> ustring \<Rightarrow> nat \<Rightarrow> worker_state \<Rightarrow> ustring list \<Rightarrow> sqs_record list
     \<Rightarrow> ustring list \<times> worker_state" where
  "process_records rt env worker_id i st batch_item_failures [] = (batch_item_failures, st)"
| "process_records rt env worker_id i st batch_item_failures (r # rs) =
     (case process_record rt env worker_id i st r of
        (success, st') \<Rightarrow>
          process_records rt env worker_id (Suc i) st'
            (if success then batch_item_failures else batch_item_failures @ [messageId r]) rs)"

definition failures_response :: "ustring list \<Rightarrow> pydict" where
  "failures_response batch_item_failures =
     [(ustr ''batchItemFailures'',
       JArr (map (\<lambda>ident. JObj [(ustr ''itemIdentifier'', JStr ident)]) batch_item_failures))]"

text \<open>The worker's \<open>lambda_handler\<close>; \<open>context\<close> is the function name, if there is a context.\<close>

definition worker_lambda_handler ::
  "runtime \<Rightarrow> worker_env \<Rightarrow> ustring option \<Rightarrow> worker_state \<Rightarrow> sqs_record list \<Rightarrow> pydict \<times> worker_state" where
  "worker_lambda_handler rt env context_name st records =
     (let worker_id = (case context_name of Some name \<Rightarrow> name | None \<Rightarrow> ustr ''local-worker'')
      in case process_records rt env worker_id 0 st [] records of
           (batch_item_failures, st') \<Rightarrow> (failures_response batch_item_failures, st'))"

section \<open>Predicates used to state and prove the properties\<close>

text \<open>
  \<open>nomatch m p s\<close>: the matcher \<open>m\<close> matches at no position of \<open>s\<close>, where \<open>p\<close> is the
  character before \<open>s\<close>. \<open>phone_free u s\<close>: none of the three patterns matches anywhere
  in \<open>s\<close>, that is, \<open>s\<close> contains no phone-like pattern.
\<close>

fun nomatch :: "cont \<Rightarrow> nat option \<Rightarrow> ustring \<Rightarrow> bool" where
  "nomatch m p [] = True"
| "nomatch m p (c # cs) = (m (p, c # cs) = None \<and> nomatch m (Some c) cs)"

text \<open>
  \<open>shadow u p out inp\<close>: \<open>out\<close> agrees with \<open>inp\<close> up to a position where \<open>out\<close>
  goes on with an opening bracket and \<open>inp\<close> with a text before which a word boundary
  needs a non-word character.
\<close>

inductive shadow :: "ucd \<Rightarrow> nat option \<Rightarrow> ustring \<Rightarrow> ustring \<Rightarrow> bool" for u :: ucd where
  nil: "shadow u p [] []"
| keep: "shadow u (Some c) out inp \<Longrightarrow> shadow u p (c # out) (c # inp)"
| cut: "inp \<noteq> [] \<Longrightarrow> (word_at u inp \<longrightarrow> \<not> word_before u p) \<Longrightarrow> shadow u p (91 # out) inp"

definition stable :: "ucd \<Rightarrow> cont \<Rightarrow> bool" where
  "stable u k = (\<forall>p out inp. shadow u p out inp \<longrightarrow> k (p, out) \<noteq> None \<longrightarrow> k (p, inp) \<noteq> None)"

definition consumes :: "cont \<Rightarrow> bool" where
  "consumes k = (\<forall>p s q r. k (p, s) = Some (q, r) \<longrightarrow>
     (\<exists>pre. s = pre @ r \<and> q = (if pre = [] then p else Some (last pre))))"

definition strict :: "cont \<Rightarrow> bool" where
  "strict k = (\<forall>p s q r. k (p, s) = Some (q, r) \<longrightarrow>
     (\<exists>pre. s = pre @ r \<and> pre \<noteq> [] \<and> q = Some (last pre)))"

definition ends_nonword :: "ucd \<Rightarrow> cont \<Rightarrow> bool" where
  "ends_nonword u k = (\<forall>st q r. k st = Some (q, r) \<longrightarrow> \<not> word_at u r)"

definition phone_free :: "ucd \<Rightarrow> ustring \<Rightarrow> bool" where
  "phone_free u s = list_all (\<lambda>pattern. nomatch pattern None s) (patterns u)"

text \<open>
  The content kind of a request, as \<open>validate_and_normalize\<close> decides it: JSON when the
  content type contains \<open>application/json\<close>, plain text when it does not and contains
  \<open>text/plain\<close>.
\<close>

definition content_type :: "runtime \<Rightarrow> http_event \<Rightarrow> ustring" where
  "content_type rt ev =
     (case lower_keys rt (headers ev) (ustr ''content-type'') of None \<Rightarrow> [] | Some v \<Rightarrow> v)"

definition json_request :: "runtime \<Rightarrow> http_event \<Rightarrow> bool" where
  "json_request rt ev = contains (ustr ''application/json'') (content_type rt ev)"

definition plain_text_request :: "runtime \<Rightarrow> http_event \<Rightarrow> bool" where
  "plain_text_request rt ev =
     (\<not> json_request rt ev \<and> contains (ustr ''text/plain'') (content_type rt ev))"

definition status_code :: "pydict \<Rightarrow> json" where
  "status_code response = dict_get response (ustr ''statusCode'')"

text \<open>
  The worker's state at a cold start, and the states it can reach under an environment:
  \<open>TABLE_NAME\<close> is unset, or it is the environment's value and \<open>table\<close> is bound
  exactly when that value is not empty.
\<close>

definition cold_start :: worker_state where
  "cold_start = \<lparr>TABLE_NAME = None, table_bound = False, stored = []\<rparr>"

definition coherent :: "worker_env \<Rightarrow> worker_state \<Rightarrow> bool" where
  "coherent env st =
     (case TABLE_NAME st of
        None \<Rightarrow> \<not> table_bound st
      | Some name \<Rightarrow> DYNAMODB_TABLE_NAME env = Some name \<and> table_bound st = (name \<noteq> []))"

definition worker_name :: "ustring option \<Rightarrow> ustring" where
  "worker_name context_name = (case context_name of Some name \<Rightarrow> name | None \<Rightarrow> ustr ''local-worker'')"

text \<open>
  The batch as the specification describes it, for comparison with the handler. The
  attempt of a delivered record is its receive count, 1 when there is none. The table is
  configured when the environment names it.
\<close>

definition expected_attempt :: "runtime \<Rightarrow> sqs_record \<Rightarrow> int option" where
  "expected_attempt rt r =
     (case map_of (attributes r) (ustr ''ApproximateReceiveCount'') of
        None \<Rightarrow> Some 1
      | Some s \<Rightarrow> str_to_int rt s)"

definition table_configured :: "worker_env \<Rightarrow> bool" where
  "table_configured env = (case DYNAMODB_TABLE_NAME env of None \<Rightarrow> False | Some name \<Rightarrow> name \<noteq> [])"

text \<open>
  The record that must be persisted for the item delivered at a position of the batch,
  and \<open>None\<close> when the item fails: its body does not decode to an object, its receive
  count is not a number, its \<open>normalized_text\<close> is not a string, one of the six fields of
  the message is missing, the table is not configured, or the write is refused. It depends
  on this item alone.
\<close>

definition expected_item :: "runtime \<Rightarrow> worker_env \<Rightarrow> ustring \<Rightarrow> nat \<times> sqs_record \<Rightarrow> pydict option" where
  "expected_item rt env worker_id ir =
     (case json_loads rt (record_body (snd ir)) of
        Decoded (JObj d) \<Rightarrow>
          (case dict_get d (ustr ''normalized_text'') of
             JStr t \<Rightarrow>
               (case expected_attempt rt (snd ir) of
                  Some a \<Rightarrow>
                    if list_all (\<lambda>k. map_of d k \<noteq> None)
                         [ustr ''tenant_id'', ustr ''log_id'', ustr ''source'', ustr ''normalized_text'',
                          ustr ''received_at'', ustr ''request_id'']
                       \<and> table_configured env \<and> \<not> put_item_raises env (fst ir)
                    then
                      Some [(ustr ''tenant_id'', dict_get d (ustr ''tenant_id'')),
                            (ustr ''log_id'', dict_get d (ustr ''log_id'')),
                            (ustr ''source'', dict_get d (ustr ''source'')),
                            (ustr ''original_text'', JStr t),
                            (ustr ''modified_data'', JStr (redact_phone_numbers (unicode rt) t)),
                            (ustr ''processed_at'', JStr (utcnow_at env (fst ir) @ ustr ''Z'')),
                            (ustr ''received_at'', dict_get d (ustr ''received_at'')),
                            (ustr ''request_id'', dict_get d (ustr ''request_id'')),
                            (ustr ''worker_id'', JStr worker_id),
                            (ustr ''attempt'', JInt a)]
                    else None
                | None \<Rightarrow> None)
           | _ \<Rightarrow> None)
      | _ \<Rightarrow> None)"

text \<open>
  For a batch: the identifiers of the items that fail, and the records of the items that
  succeed, both in the order of the batch.
\<close>

definition expected_failures :: "runtime \<Rightarrow> worker_env \<Rightarrow> ustring \<Rightarrow> sqs_record list \<Rightarrow> ustring list" where
  "expected_failures rt env worker_id rs =
     map (messageId \<circ> snd) (filter (\<lambda>ir. expected_item rt env worker_id ir = None) (enumerate 0 rs))"

definition expected_items :: "runtime \<Rightarrow> worker_env \<Rightarrow> ustring \<Rightarrow> sqs_record list \<Rightarrow> pydict list" where
  "expected_items rt env worker_id rs = List.map_filter (expected_item rt env worker_id) (enumerate 0 rs)"

text \<open>A table of code points beyond ASCII in which no code point has a class.\<close>

definition ascii_ucd :: ucd where
  "ascii_ucd = \<lparr>ucd_decimal = (\<lambda>c. False), ucd_space = (\<lambda>c. False), ucd_alnum = (\<lambda>c. False)\<rparr>"

section \<open>Concrete inputs\<close>

text \<open>
  A runtime for concrete inputs: ASCII lower case, and a \<open>json.loads\<close> that knows the
  documents used below (every other text is refused); \<open>json.dumps\<close> and \<open>int\<close> are
  stand-ins.
\<close>

definition ascii_lower :: "ustring \<Rightarrow> ustring" where
  "ascii_lower s = map (\<lambda>c. if 65 \<le> c \<and> c \<le> 90 then c + 32 else c) s"

definition doc_array :: ustring where
  \<open>doc_array = ustr ''[]''\<close>

definition doc_no_tenant :: ustring where
  \<open>doc_no_tenant = ustr ''{"text": "hello"}''\<close>

definition doc_blank_text :: ustring where
  \<open>doc_blank_text = ustr ''{"tenant_id": "acme", "text": "   "}''\<close>

definition doc_number_text :: ustring where
  \<open>doc_number_text = ustr ''{"tenant_id": "acme", "text": 5}''\<close>

definition queued :: "string \<Rightarrow> string \<Rightarrow> pydict" where
  "queued ident txt =
     [(ustr ''tenant_id'', JStr (ustr ''acme'')), (ustr ''log_id'', JStr (ustr ident)),
      (ustr ''normalized_text'', JStr (ustr txt)), (ustr ''source'', JStr (ustr ''text_upload'')),
      (ustr ''received_at'', JStr (ustr ''2024-01-01T00:00:00Z'')), (ustr ''request_id'', JStr (ustr ''r-1''))]"

definition doc_first :: ustring where
  \<open>doc_first = ustr ''{"tenant_id": "acme", "log_id": "001", "normalized_text": "User 555-0199 accessed /api/login", "source": "text_upload", "received_at": "2024-01-01T00:00:00Z", "request_id": "r-1"}''\<close>

definition doc_second :: ustring where
  \<open>doc_second = ustr ''{"tenant_id": "acme", "log_id": "001", "normalized_text": "Call 555-555-1234", "source": "text_upload", "received_at": "2024-01-01T00:00:00Z", "request_id": "r-1"}''\<close>

definition doc_other :: ustring where
  \<open>doc_other = ustr ''{"tenant_id": "acme", "log_id": "002", "normalized_text": "Order #12345", "source": "text_upload", "received_at": "2024-01-01T00:00:00Z", "request_id": "r-1"}''\<close>

definition doc_broken :: ustring where
  \<open>doc_broken = ustr ''{"tenant_id": ''\<close>

definition sample_loads :: "ustring \<Rightarrow> loaded" where
  "sample_loads s =
     (if s = doc_first then Decoded (JObj (queued ''001'' ''User 555-0199 accessed /api/login''))
      else if s = doc_second then Decoded (JObj (queued ''001'' ''Call 555-555-1234''))
      else if s = doc_other then Decoded (JObj (queued ''002'' ''Order #12345''))
      else if s = doc_array then Decoded (JArr [])
      else if s = doc_no_tenant then Decoded (JObj [(ustr ''text'', JStr (ustr ''hello''))])
      else if s = doc_blank_text then
        Decoded (JObj [(ustr ''tenant_id'', JStr (ustr ''acme'')), (ustr ''text'', JStr (ustr ''   ''))])
      else if s = doc_number_text then
        Decoded (JObj [(ustr ''tenant_id'', JStr (ustr ''acme'')), (ustr ''text'', JInt 5)])
      else JSONDecodeError (ustr ''Expecting value''))"

definition sample_runtime :: runtime where
  "sample_runtime = \<lparr>unicode = ascii_ucd, str_lower = ascii_lower, json_loads = sample_loads,
     json_dumps = (\<lambda>j. ustr ''json''), str_to_int = (\<lambda>s. if s = ustr ''1'' then Some 1 else if s = ustr ''2'' then Some 2 else None)\<rparr>"

definition sample_api_env :: api_env where
  "sample_api_env = \<lparr>SQS_QUEUE_URL = Some (ustr ''https://sqs.example/ingest''),
     uuid4_log_id = ustr ''0f8fad5b-d9cb-469f-a165-70867728950e'',
     uuid4_request_id = ustr ''7c9e6679-7425-40de-944b-e07fc1f90ae7'',
     utcnow_isoformat = ustr ''2024-01-01T00:00:00'',
     send_message_raises = False\<rparr>"

definition fresh_api_state :: api_state where
  "fresh_api_state = \<lparr>QUEUE_URL = None, sqs_messages = []\<rparr>"

definition post_ingest :: "(ustring \<times> ustring) list \<Rightarrow> ustring \<Rightarrow> http_event" where
  "post_ingest hs b = \<lparr>http_method = ustr ''POST'', rawPath = ustr ''/ingest'', headers = hs, body = Some b\<rparr>"

definition ev_text_acme :: http_event where
  "ev_text_acme = post_ingest
     [(ustr ''Content-Type'', ustr ''text/plain''), (ustr ''X-Tenant-ID'', ustr ''acme'')]
     (ustr ''User 555-0199 accessed /api/login'')"

definition ev_text_empty_tenant :: http_event where
  "ev_text_empty_tenant = post_ingest
     [(ustr ''Content-Type'', ustr ''text/plain''), (ustr ''X-Tenant-ID'', [])]
     (ustr ''hello'')"

definition ev_json_array :: http_event where
  "ev_json_array = post_ingest [(ustr ''Content-Type'', ustr ''application/json'')] doc_array"

definition ev_json_no_tenant :: http_event where
  "ev_json_no_tenant = post_ingest [(ustr ''Content-Type'', ustr ''application/json'')] doc_no_tenant"

definition ev_json_blank_text :: http_event where
  "ev_json_blank_text = post_ingest [(ustr ''Content-Type'', ustr ''application/json'')] doc_blank_text"

definition ev_json_number_text :: http_event where
  "ev_json_number_text = post_ingest [(ustr ''Content-Type'', ustr ''application/json'')] doc_number_text"

definition sample_worker_env :: worker_env where
  "sample_worker_env = \<lparr>DYNAMODB_TABLE_NAME = Some (ustr ''processed-logs''),
     utcnow_at = (\<lambda>i. ustr ''2024-01-01T00:00:01''), put_item_raises = (\<lambda>i. False)\<rparr>"

definition delivered :: "string \<Rightarrow> ustring \<Rightarrow> string \<Rightarrow> sqs_record" where
  "delivered ident doc n = \<lparr>messageId = ustr ident, receiptHandle = ustr ''handle'', record_body = doc,
     attributes = [(ustr ''ApproximateReceiveCount'', ustr n)]\<rparr>"

text \<open>The item the worker named \<open>local-worker\<close> writes for a message of \<open>queued\<close>.\<close>

definition sample_item :: "string \<Rightarrow> string \<Rightarrow> string \<Rightarrow> pydict" where
  "sample_item ident original modified =
     [(ustr ''tenant_id'', JStr (ustr ''acme'')), (ustr ''log_id'', JStr (ustr ident)),
      (ustr ''source'', JStr (ustr ''text_upload'')), (ustr ''original_text'', JStr (ustr original)),
      (ustr ''modified_data'', JStr (ustr modified)),
      (ustr ''processed_at'', JStr (ustr ''2024-01-01T00:00:01Z'')),
      (ustr ''received_at'', JStr (ustr ''2024-01-01T00:00:00Z'')), (ustr ''request_id'', JStr (ustr ''r-1'')),
      (ustr ''worker_id'', JStr (ustr ''local-worker'')), (ustr ''attempt'', JInt 1)]"

definition sample_batch :: "sqs_record list" where
  "sample_batch = [delivered ''m-1'' doc_first ''1'', delivered ''m-2'' doc_broken ''1'',
     delivered ''m-3'' doc_other ''1'']"

section \<open>Properties of the matchers and of \<open>re.sub\<close>\<close>

lemma sub_id: "nomatch m p s \<Longrightarrow> re_sub_from m repl p s = s"
  by (induction s arbitrary: p) auto

text \<open>\<open>nomatch\<close> says that the matcher fails at every position of the text.\<close>

lemma nomatch_positions:
  "nomatch m p s \<longleftrightarrow>
     (\<forall>pre c r. s = pre @ c # r \<longrightarrow> m (if pre = [] then p else Some (last pre), c # r) = None)"
proof (induction s arbitrary: p)
  case Nil
  then show ?case by simp
next
  case (Cons a s)
  have "(\<forall>pre c r. a # s = pre @ c # r \<longrightarrow> m (if pre = [] then p else Some (last pre), c # r) = None)
      \<longleftrightarrow> m (p, a # s) = None
          \<and> (\<forall>pre c r. s = pre @ c # r \<longrightarrow> m (if pre = [] then Some a else Some (last pre), c # r) = None)"
    (is "?L \<longleftrightarrow> ?H \<and> ?T")
  proof
    assume l: ?L
    have "?H" using l[rule_format, of "[]" a s] by simp
    moreover have "?T"
    proof (intro allI impI)
      fix pre c r assume "s = pre @ c # r"
      then show "m (if pre = [] then Some a else Some (last pre), c # r) = None"
        using l[rule_format, of "a # pre" c r] by (cases "pre = []") simp_all
    qed
    ultimately show "?H \<and> ?T" by simp
  next
    assume ht: "?H \<and> ?T"
    show ?L
    proof (intro allI impI)
      fix pre c r assume e: "a # s = pre @ c # r"
      show "m (if pre = [] then p else Some (last pre), c # r) = None"
      proof (cases pre)
        case Nil
        then show ?thesis using e ht by simp
      next
        case (Cons b pre')
        then have s: "s = pre' @ c # r" "b = a" using e by simp_all
        from ht have "m (if pre' = [] then Some a else Some (last pre'), c # r) = None"
          using s(1) by blast
        then show ?thesis using Cons s(2) by (cases "pre' = []") simp_all
      qed
    qed
  qed
  then show ?case using Cons.IH[of "Some a"] by simp
qed

lemma nomatch_suffix:
  "nomatch k p (pre @ r) \<Longrightarrow> nomatch k (if pre = [] then p else Some (last pre)) r"
  by (induction pre arbitrary: p) (auto split: if_splits)

lemma nomatch_self: "nomatch (\<lambda>st. if m st = None then m st else None) p s"
  by (induction s arbitrary: p) auto

lemma nomatch_cross: "nomatch m' p s \<Longrightarrow> nomatch (\<lambda>st. if m st = None then m' st else None) p s"
  by (induction s arbitrary: p) auto

lemma stable_accept: "stable u accept"
  by (simp add: stable_def accept_def)

lemma stable_cls: assumes "stable u k" "\<not> P 91" shows "stable u (cls P k)"
  unfolding stable_def
proof (intro allI impI)
  fix p out inp
  assume sh: "shadow u p out inp" and ok: "cls P k (p, out) \<noteq> None"
  from sh ok show "cls P k (p, inp) \<noteq> None"
  proof cases
    case nil then show ?thesis using ok by simp
  next
    case (keep c out' inp')
    then show ?thesis using ok assms(1) by (auto simp: stable_def split: if_splits)
  next
    case (cut out')
    then show ?thesis using ok assms(2) by simp
  qed
qed

lemma stable_opt: assumes "stable u k" "\<not> P 91" shows "stable u (opt P k)"
proof -
  have c: "stable u (cls P k)" using assms by (rule stable_cls)
  show ?thesis unfolding stable_def
  proof (intro allI impI)
    fix p out inp
    assume sh: "shadow u p out inp" and ok: "opt P k (p, out) \<noteq> None"
    show "opt P k (p, inp) \<noteq> None"
    proof (cases "cls P k (p, out)")
      case None
      with ok have "k (p, out) \<noteq> None" by (simp add: opt_def)
      with sh assms(1) have "k (p, inp) \<noteq> None" unfolding stable_def by blast
      then show ?thesis by (simp add: opt_def split: option.splits)
    next
      case (Some a)
      with sh c have "cls P k (p, inp) \<noteq> None" unfolding stable_def by (metis option.distinct(1))
      then show ?thesis by (auto simp: opt_def split: option.splits)
    qed
  qed
qed

lemma stable_rep: "stable u k \<Longrightarrow> \<not> P 91 \<Longrightarrow> stable u (rep n P k)"
  by (induction n) (auto intro: stable_cls)

lemma not_word_91: "\<not> is_word u 91"
  by (simp add: is_word_def isalnum_def)

lemma boundary_shadow:
  assumes "shadow u p out inp" "at_boundary u (p, out)" shows "at_boundary u (p, inp)"
  using assms
  by (cases rule: shadow.cases) (auto simp: at_boundary_def not_word_91)

lemma stable_bnd: assumes "stable u k" shows "stable u (bnd u k)"
  using assms boundary_shadow unfolding stable_def bnd_def
  by (auto split: if_splits)

lemma consumes_accept: "consumes accept"
  by (simp add: consumes_def accept_def)

lemma strict_cls: assumes "consumes k" shows "strict (cls P k)"
  unfolding strict_def
proof (intro allI impI)
  fix p s q r
  assume a: "cls P k (p, s) = Some (q, r)"
  then obtain c cs where s: "s = c # cs" and k: "k (Some c, cs) = Some (q, r)"
    by (cases s) (auto split: if_splits)
  from assms k obtain pre where pre: "cs = pre @ r" "q = (if pre = [] then Some c else Some (last pre))"
    unfolding consumes_def by blast
  show "\<exists>pre. s = pre @ r \<and> pre \<noteq> [] \<and> q = Some (last pre)"
    using s pre by (intro exI[of _ "c # pre"]) auto
qed

lemma strict_consumes: "strict k \<Longrightarrow> consumes k"
  unfolding strict_def consumes_def by (metis)

lemma consumes_cls: "consumes k \<Longrightarrow> consumes (cls P k)"
  by (rule strict_consumes) (rule strict_cls)

lemma consumes_opt: assumes "consumes k" shows "consumes (opt P k)"
proof -
  have c: "consumes (cls P k)" using assms by (rule consumes_cls)
  have "opt P k st = Some t \<Longrightarrow> cls P k st = Some t \<or> k st = Some t" for st t
    by (simp add: opt_def split: option.splits)
  then show ?thesis using c assms unfolding consumes_def by blast
qed

lemma consumes_bnd: "consumes k \<Longrightarrow> consumes (bnd u k)"
  unfolding consumes_def bnd_def by (auto split: if_splits)

lemma strict_bnd: "strict k \<Longrightarrow> strict (bnd u k)"
  unfolding strict_def bnd_def by (auto split: if_splits)

lemma consumes_rep: "consumes k \<Longrightarrow> consumes (rep n P k)"
  by (induction n) (auto intro: consumes_cls)

lemma ends_nonword_base: "ends_nonword u (cls (isdecimal u) (bnd u accept))"
  unfolding ends_nonword_def
proof (intro allI impI)
  fix st q r
  assume a: "cls (isdecimal u) (bnd u accept) st = Some (q, r)"
  obtain p s where st: "st = (p, s)" by (cases st)
  show "\<not> word_at u r"
  proof (cases s)
    case Nil
    then show ?thesis using a st by simp
  next
    case (Cons c cs)
    have d: "isdecimal u c" using a st Cons by (simp split: if_splits)
    then have b: "bnd u accept (Some c, cs) = Some (q, r)" using a st Cons by simp
    then have e: "at_boundary u (Some c, cs)" "cs = r"
      by (simp_all add: bnd_def accept_def split: if_splits)
    have "is_word u c" using d by (auto simp: is_word_def isalnum_def isdecimal_def split: if_splits)
    then show ?thesis using e by (simp add: at_boundary_def)
  qed
qed

lemma ends_nonword_cls: "ends_nonword u k \<Longrightarrow> ends_nonword u (cls P k)"
  unfolding ends_nonword_def
  by (metis cls.elims option.distinct(1))

lemma ends_nonword_opt: assumes "ends_nonword u k" shows "ends_nonword u (opt P k)"
proof -
  have c: "ends_nonword u (cls P k)" using assms by (rule ends_nonword_cls)
  have "opt P k st = Some t \<Longrightarrow> cls P k st = Some t \<or> k st = Some t" for st t
    by (simp add: opt_def split: option.splits)
  then show ?thesis using c assms unfolding ends_nonword_def by blast
qed

lemma ends_nonword_bnd: "ends_nonword u k \<Longrightarrow> ends_nonword u (bnd v k)"
  unfolding ends_nonword_def bnd_def by (auto split: if_splits)

lemma ends_nonword_rep: "ends_nonword u k \<Longrightarrow> ends_nonword u (rep n P k)"
  by (induction n) (auto intro: ends_nonword_cls)

lemma shadow_sub:
  assumes stop: "\<And>p s t. m (p, s) = Some t \<Longrightarrow> word_at u s \<longrightarrow> \<not> word_before u p"
  shows "shadow u p (re_sub_from m redacted_marker p s) s"
proof (induction s arbitrary: p)
  case Nil
  show ?case by (simp add: shadow.nil)
next
  case (Cons c cs)
  show ?case
  proof (cases "m (p, c # cs)")
    case None
    then show ?thesis using Cons[of "Some c"] by (simp add: shadow.keep)
  next
    case (Some t)
    obtain q r where t: "t = (q, r)" by (cases t)
    show ?thesis
    proof (cases "length r < length (c # cs)")
      case True
      have "shadow u p (91 # ustr ''REDACTED]'' @ re_sub_from m redacted_marker q r) (c # cs)"
        using stop[OF Some] by (intro shadow.cut) auto
      then show ?thesis using Some t True by (simp add: redacted_marker_def ustr_def)
    next
      case False
      then show ?thesis using Some t Cons[of "Some c"] by (simp add: shadow.keep)
    qed
  qed
qed

lemma nomatch_marker:
  assumes "\<And>p c x. c \<in> set redacted_marker \<Longrightarrow> m' (p, c # x) = None"
  shows "nomatch m' p (redacted_marker @ x) = nomatch m' (Some 93) x"
  using assms by (simp add: redacted_marker_def ustr_def)

lemma nomatch_after_sub:
  assumes stab: "stable u m'"
    and stop: "\<And>p s t. m (p, s) = Some t \<Longrightarrow> word_at u s \<longrightarrow> \<not> word_before u p"
    and adv: "strict m"
    and marker: "\<And>p c x. c \<in> set redacted_marker \<Longrightarrow> m' (p, c # x) = None"
    and switch: "\<And>p s q r. m (p, s) = Some (q, r) \<Longrightarrow>
        nomatch m' q (re_sub_from m redacted_marker q r) \<Longrightarrow>
        nomatch m' (Some 93) (re_sub_from m redacted_marker q r)"
    and src: "nomatch (\<lambda>st. if m st = None then m' st else None) p s"
  shows "nomatch m' p (re_sub_from m redacted_marker p s)"
  using src
proof (induction "length s" arbitrary: p s rule: less_induct)
  case less
  show ?case
  proof (cases s)
    case Nil
    then show ?thesis by simp
  next
    case (Cons c cs)
    have sh: "shadow u p (re_sub_from m redacted_marker p s) s"
      using stop by (rule shadow_sub)
    show ?thesis
    proof (cases "m (p, s)")
      case None
      then have "m' (p, s) = None" using less.prems Cons by simp
      then have head: "m' (p, re_sub_from m redacted_marker p s) = None"
        using sh stab unfolding stable_def by blast
      have "nomatch (\<lambda>st. if m st = None then m' st else None) (Some c) cs"
        using less.prems Cons by simp
      then have "nomatch m' (Some c) (re_sub_from m redacted_marker (Some c) cs)"
        using less.hyps[of cs "Some c"] Cons by simp
      then show ?thesis using head None Cons by simp
    next
      case (Some t)
      obtain q r where t: "t = (q, r)" by (cases t)
      from adv Some t obtain pre where pre: "s = pre @ r" "pre \<noteq> []" "q = Some (last pre)"
        unfolding strict_def by blast
      then have len: "length r < length s" by (cases pre) auto
      have "nomatch (\<lambda>st. if m st = None then m' st else None) q r"
        using nomatch_suffix[of _ p pre r] less.prems pre by simp
      then have "nomatch m' q (re_sub_from m redacted_marker q r)"
        using less.hyps[of r q] len by simp
      then have "nomatch m' (Some 93) (re_sub_from m redacted_marker q r)"
        using switch Some t by blast
      then have "nomatch m' p (redacted_marker @ re_sub_from m redacted_marker q r)"
        using nomatch_marker[of m', OF marker] by simp
      then show ?thesis using Some t len Cons by simp
    qed
  qed
qed

lemma not_decimal_91: "\<not> isdecimal u 91" by (simp add: isdecimal_def)
lemma not_space_91: "\<not> isspace u 91" by (simp add: isspace_def)
lemma not_dash_dot_91: "\<not> dash_dot 91" by (simp add: dash_dot_def)
lemma not_dds_91: "\<not> dash_dot_space u 91" by (simp add: dash_dot_space_def isspace_def)

lemmas stable_intros = stable_accept stable_cls stable_opt stable_rep stable_bnd
  not_decimal_91 not_space_91 not_dash_dot_91 not_dds_91

lemma stable_paren: "stable u (pattern_paren u)"
  unfolding pattern_paren_def by (intro stable_intros) simp_all

lemma stable_full: "stable u (pattern_full u)"
  unfolding pattern_full_def by (intro stable_intros)

lemma stable_short: "stable u (pattern_short u)"
  unfolding pattern_short_def by (intro stable_intros)

lemmas consumes_intros = consumes_accept consumes_cls consumes_opt consumes_rep consumes_bnd

lemma strict_paren: "strict (pattern_paren u)"
  unfolding pattern_paren_def by (intro strict_cls consumes_intros)

lemma rep3: "rep 3 P k = cls P (cls P (cls P k))"
  by (simp add: eval_nat_numeral)

lemma rep4: "rep 4 P k = cls P (cls P (cls P (cls P k)))"
  by (simp add: eval_nat_numeral)

lemma strict_full: "strict (pattern_full u)"
  unfolding pattern_full_def rep3 by (intro strict_bnd strict_cls consumes_intros)

lemma strict_short: "strict (pattern_short u)"
  unfolding pattern_short_def rep3 by (intro strict_bnd strict_cls consumes_intros)

lemmas ends_intros = ends_nonword_base ends_nonword_cls ends_nonword_opt ends_nonword_bnd

lemma ends_full: "ends_nonword u (pattern_full u)"
  unfolding pattern_full_def rep3 rep4 by (intro ends_intros)

lemma ends_short: "ends_nonword u (pattern_short u)"
  unfolding pattern_short_def rep3 rep4 by (intro ends_intros)

lemma paren_head: "c \<noteq> 40 \<Longrightarrow> pattern_paren u (p, c # x) = None"
  by (simp add: pattern_paren_def)

lemma paren_prev: "pattern_paren u (p, s) = pattern_paren u (p', s)"
  by (cases s) (simp_all add: pattern_paren_def)

lemma full_head: "\<not> isdecimal u c \<Longrightarrow> pattern_full u (p, c # x) = None"
  by (simp add: pattern_full_def bnd_def rep3)

lemma short_head: "\<not> isdecimal u c \<Longrightarrow> pattern_short u (p, c # x) = None"
  by (simp add: pattern_short_def bnd_def rep3)

lemma decimal_word: "isdecimal u c \<Longrightarrow> is_word u c"
  by (auto simp: is_word_def isalnum_def isdecimal_def split: if_splits)

lemma marker_chars: "c \<in> set redacted_marker \<Longrightarrow> c \<noteq> 40 \<and> \<not> isdecimal u c"
  by (auto simp: redacted_marker_def ustr_def isdecimal_def)

lemma paren_stop: "pattern_paren u (p, s) = Some t \<Longrightarrow> word_at u s \<longrightarrow> \<not> word_before u p"
  by (cases s) (auto simp: pattern_paren_def is_word_def isalnum_def split: if_splits)

lemma full_stop: "pattern_full u (p, s) = Some t \<Longrightarrow> word_at u s \<longrightarrow> \<not> word_before u p"
  by (auto simp: pattern_full_def bnd_def at_boundary_def split: if_splits)

lemma short_stop: "pattern_short u (p, s) = Some t \<Longrightarrow> word_at u s \<longrightarrow> \<not> word_before u p"
  by (auto simp: pattern_short_def bnd_def at_boundary_def split: if_splits)

lemma nomatch_paren_prev: "nomatch (pattern_paren u) p x \<Longrightarrow> nomatch (pattern_paren u) p' x"
  using paren_prev[of u p _ p'] by (cases x) simp_all

lemma switch_digit:
  assumes head: "\<And>p c x. \<not> isdecimal u c \<Longrightarrow> m' (p, c # x) = None"
    and mhead: "\<And>p c x. \<not> isdecimal u c \<Longrightarrow> m (p, c # x) = None"
    and ends: "ends_nonword u m"
    and mt: "m (p, s) = Some (q, r)"
    and nm: "nomatch m' q (re_sub_from m redacted_marker q r)"
  shows "nomatch m' (Some 93) (re_sub_from m redacted_marker q r)"
proof (cases r)
  case Nil
  then show ?thesis by simp
next
  case (Cons c cs)
  have "\<not> word_at u r" using ends mt unfolding ends_nonword_def by blast
  then have nd: "\<not> isdecimal u c" using Cons decimal_word by auto
  have "re_sub_from m redacted_marker q r = c # re_sub_from m redacted_marker (Some c) cs"
    using Cons mhead[OF nd] by simp
  then show ?thesis using nm head[OF nd] by simp
qed

lemma paren_after_sub:
  assumes stop: "\<And>p s t. m (p, s) = Some t \<Longrightarrow> word_at u s \<longrightarrow> \<not> word_before u p"
    and adv: "strict m"
    and src: "nomatch (\<lambda>st. if m st = None then pattern_paren u st else None) p s"
  shows "nomatch (pattern_paren u) p (re_sub_from m redacted_marker p s)"
  using stable_paren stop adv
proof (rule nomatch_after_sub)
  show "pattern_paren u (p, c # x) = None" if "c \<in> set redacted_marker" for p c x
    using that marker_chars paren_head by blast
  show "nomatch (pattern_paren u) (Some 93) (re_sub_from m redacted_marker q r)"
    if "nomatch (pattern_paren u) q (re_sub_from m redacted_marker q r)" for q r
    using that by (rule nomatch_paren_prev)
  show "nomatch (\<lambda>st. if m st = None then pattern_paren u st else None) p s" by (rule src)
qed

lemma digit_after_sub:
  assumes stab: "stable u m'"
    and head: "\<And>p c x. \<not> isdecimal u c \<Longrightarrow> m' (p, c # x) = None"
    and stop: "\<And>p s t. m (p, s) = Some t \<Longrightarrow> word_at u s \<longrightarrow> \<not> word_before u p"
    and adv: "strict m"
    and mhead: "\<And>p c x. \<not> isdecimal u c \<Longrightarrow> m (p, c # x) = None"
    and ends: "ends_nonword u m"
    and src: "nomatch (\<lambda>st. if m st = None then m' st else None) p s"
  shows "nomatch m' p (re_sub_from m redacted_marker p s)"
  using stab stop adv
proof (rule nomatch_after_sub)
  show "m' (p, c # x) = None" if "c \<in> set redacted_marker" for p c x
    using that marker_chars head by blast
  show "nomatch m' (Some 93) (re_sub_from m redacted_marker q r)"
    if "m (p, s) = Some (q, r)" "nomatch m' q (re_sub_from m redacted_marker q r)" for p s q r
    using head mhead ends that by (rule switch_digit)
  show "nomatch (\<lambda>st. if m st = None then m' st else None) p s" by (rule src)
qed

lemma redact_unfold:
  "redact_phone_numbers u s =
     re_sub (pattern_short u) redacted_marker (re_sub (pattern_full u) redacted_marker
       (re_sub (pattern_paren u) redacted_marker s))"
  by (simp add: redact_phone_numbers_def patterns_def)

lemma phone_free_id: "phone_free u s \<Longrightarrow> redact_phone_numbers u s = s"
  by (simp add: phone_free_def patterns_def redact_unfold re_sub_def sub_id)

lemma phone_free_redact: "phone_free u (redact_phone_numbers u s)"
proof -
  let ?t1 = "re_sub (pattern_paren u) redacted_marker s"
  let ?t2 = "re_sub (pattern_full u) redacted_marker ?t1"
  let ?t3 = "re_sub (pattern_short u) redacted_marker ?t2"
  have n11: "nomatch (pattern_paren u) None ?t1"
    unfolding re_sub_def by (rule paren_after_sub[OF paren_stop strict_paren nomatch_self])
  have n12: "nomatch (pattern_paren u) None ?t2"
    unfolding re_sub_def[of "pattern_full u"]
    by (rule paren_after_sub[OF full_stop strict_full nomatch_cross[OF n11]])
  have n13: "nomatch (pattern_paren u) None ?t3"
    unfolding re_sub_def[of "pattern_short u"]
    by (rule paren_after_sub[OF short_stop strict_short nomatch_cross[OF n12]])
  have n22: "nomatch (pattern_full u) None ?t2"
    unfolding re_sub_def[of "pattern_full u"]
    by (rule digit_after_sub[OF stable_full full_head full_stop strict_full full_head ends_full nomatch_self])
  have n23: "nomatch (pattern_full u) None ?t3"
    unfolding re_sub_def[of "pattern_short u"]
    by (rule digit_after_sub[OF stable_full full_head short_stop strict_short short_head ends_short nomatch_cross[OF n22]])
  have n33: "nomatch (pattern_short u) None ?t3"
    unfolding re_sub_def[of "pattern_short u"]
    by (rule digit_after_sub[OF stable_short short_head short_stop strict_short short_head ends_short nomatch_self])
  show ?thesis using n13 n23 n33 by (simp add: phone_free_def patterns_def redact_unfold)
qed

lemma pattern_progress:
  assumes "m \<in> set (patterns u)" "m (p, s) = Some (q, r)"
  shows "length r < length s"
proof -
  have "strict m" using assms(1) strict_paren strict_full strict_short
    by (auto simp: patterns_def)
  then obtain pre where "s = pre @ r" "pre \<noteq> []"
    using assms(2) unfolding strict_def by blast
  then show ?thesis by (cases pre) auto
qed

lemma paren_needs_digit:
  "cs = [] \<or> \<not> isdecimal u (hd cs) \<Longrightarrow> pattern_paren u (p, c # cs) = None"
  by (cases cs) (simp_all add: pattern_paren_def rep3)

text \<open>A text without a decimal digit contains no phone-like pattern.\<close>

lemma digit_free_phone_free:
  assumes "\<forall>c \<in> set s. \<not> isdecimal u c"
  shows "phone_free u s"
proof -
  have "nomatch (pattern_paren u) p s \<and> nomatch (pattern_full u) p s \<and> nomatch (pattern_short u) p s" for p
    using assms
  proof (induction s arbitrary: p)
    case Nil
    then show ?case by simp
  next
    case (Cons c cs)
    have "cs = [] \<or> \<not> isdecimal u (hd cs)" using Cons.prems by (cases cs) auto
    then show ?case using Cons paren_needs_digit full_head short_head by simp
  qed
  then show ?thesis by (simp add: phone_free_def patterns_def)
qed

lemmas redact_eval = redact_phone_numbers_def patterns_def re_sub_def ustr_def redacted_marker_def
  pattern_paren_def pattern_full_def pattern_short_def opt_def bnd_def at_boundary_def accept_def
  isdecimal_def is_word_def isalnum_def isspace_def dash_dot_def dash_dot_space_def rep3 rep4

section \<open>Redaction\<close>

text \<open>
  Claim C9: redacting \<open>User 555-0199 accessed /api/login\<close> yields exactly
  \<open>User [REDACTED] accessed /api/login\<close>, whatever the classes of the code points beyond
  ASCII are.
\<close>

theorem redact_spec_example:
  "redact_phone_numbers u (ustr ''User 555-0199 accessed /api/login'')
     = ustr ''User [REDACTED] accessed /api/login''"
  by (simp add: redact_eval)

text \<open>
  Claim C2: redaction is idempotent. For every string \<open>s\<close>, redacting the redacted text
  again changes nothing, where redaction applies the three patterns in order, each to the
  output of the one before.
\<close>

theorem redact_idempotent:
  "redact_phone_numbers u (redact_phone_numbers u s) = redact_phone_numbers u s"
proof -
  have "phone_free u (redact_phone_numbers u s)"
    by (rule phone_free_redact)
  then show ?thesis
    by (rule phone_free_id)
qed

text \<open>
  Claim C5: a string that contains no phone-like pattern (none of the three patterns
  matches at any position) is returned unchanged.
\<close>

theorem redact_non_interference:
  assumes "phone_free u s"
  shows "redact_phone_numbers u s = s"
proof -
  have "nomatch (pattern_paren u) None s" "nomatch (pattern_full u) None s"
    "nomatch (pattern_short u) None s"
    using assms by (simp_all add: phone_free_def patterns_def)
  then show ?thesis
    by (simp add: redact_unfold re_sub_def sub_id)
qed

text \<open>
  An order number, a currency amount and a path keep every character. A number of seven
  digits has the shape of the third pattern and is redacted.
\<close>

lemma seven_digit_number_redacted:
  "redact_phone_numbers u (ustr ''Order #1234567'') = ustr ''Order #[REDACTED]''"
  by (simp add: redact_eval)



theorem redact_non_interference_witness:
  "phone_free ascii_ucd (ustr ''Order #12345 costs $99.99 at /api/v1/items'')
   \<and> redact_phone_numbers ascii_ucd (ustr ''Order #12345 costs $99.99 at /api/v1/items'')
       = ustr ''Order #12345 costs $99.99 at /api/v1/items''"
proof -
  have free: "phone_free ascii_ucd (ustr ''Order #12345 costs $99.99 at /api/v1/items'')"
    by (simp add: phone_free_def redact_eval)
  from redact_non_interference[OF free] free show ?thesis by simp
qed

section \<open>The normalizer and the API handler\<close>

lemmas sample_eval = sample_runtime_def sample_api_env_def fresh_api_state_def post_ingest_def
  ascii_lower_def sample_loads_def doc_array_def doc_no_tenant_def doc_blank_text_def doc_number_text_def ascii_ucd_def
  doc_first_def doc_second_def doc_other_def doc_broken_def queued_def
  ustr_def lower_keys_def content_type_def json_request_def plain_text_request_def
  str_strip_def isspace_def

lemma status_bad_request: "status_code (bad_request rt msg) = JInt 400"
  by (simp add: status_code_def bad_request_def error_response_def dict_get_def ustr_def)

lemma str_strip_Nil: "str_strip u [] = []"
  by (simp add: str_strip_def)

lemma validate_shape:
  assumes "validate_and_normalize rt env ev = Inr (a, b)"
  shows "(a = None \<and> (\<exists>msg. b = Some (bad_request rt msg))) \<or> (a \<noteq> None \<and> b = None)"
  using assms unfolding validate_and_normalize_def Let_def
  by (auto split: if_splits sum.splits loaded.splits json.splits option.splits)

lemma validate_plain_text:
  assumes "plain_text_request rt ev" "body ev = Some b" "str_strip (unicode rt) b \<noteq> []"
  shows "validate_and_normalize rt env ev =
     (case lower_keys rt (headers ev) (ustr ''x-tenant-id'') of
        None \<Rightarrow> Inr (None, Some (bad_request rt (ustr ''X-Tenant-ID header is required for text/plain requests'')))
      | Some v \<Rightarrow>
          if v = [] then Inr (None, Some (bad_request rt (ustr ''X-Tenant-ID header is required for text/plain requests'')))
          else Inr (Some (make_message env (lower_keys rt (headers ev)) (JStr v) JNull (JStr b) (ustr ''text_upload'')), None))"
proof -
  have "b \<noteq> []" using assms(3) str_strip_Nil by auto
  then show ?thesis
    using assms unfolding validate_and_normalize_def Let_def plain_text_request_def json_request_def content_type_def
    by (simp split: option.splits)
qed

lemma make_message_fields:
  "dict_get (make_message env hdrs t l n s) (ustr ''tenant_id'') = t"
  "dict_get (make_message env hdrs t l n s) (ustr ''normalized_text'') = n"
  "dict_get (make_message env hdrs t l n s) (ustr ''source'') = JStr s"
  "dict_get (make_message env hdrs t l n s) (ustr ''log_id'') = (if truthy l then l else JStr (uuid4_log_id env))"
  by (simp_all add: make_message_def dict_get_def ustr_def Let_def)

lemma missing_tenant_rejected:
  assumes "body ev = Some b" "str_strip (unicode rt) b \<noteq> []"
    and "(json_request rt ev \<and> (\<exists>d. json_loads rt b = Decoded (JObj d) \<and> \<not> truthy (dict_get d (ustr ''tenant_id''))))
         \<or> (plain_text_request rt ev \<and>
              (lower_keys rt (headers ev) (ustr ''x-tenant-id'') = None
               \<or> lower_keys rt (headers ev) (ustr ''x-tenant-id'') = Some []))"
  shows "\<exists>msg. validate_and_normalize rt env ev = Inr (None, Some (bad_request rt msg))"
proof -
  have "b \<noteq> []" using assms(2) str_strip_Nil by auto
  then show ?thesis
    using assms unfolding validate_and_normalize_def Let_def plain_text_request_def json_request_def content_type_def
    by auto
qed

lemma no_tenant_scenario:
  "validate_and_normalize sample_runtime sample_api_env ev_json_no_tenant
     = Inr (None, Some (bad_request sample_runtime (ustr ''tenant_id is required in JSON payload'')))"
  by (simp add: validate_and_normalize_def ev_json_no_tenant_def sample_eval dict_get_def)

lemma rejected_not_published:
  assumes "http_method ev = ustr ''POST''" "rawPath ev = ustr ''/ingest''"
    and "validate_and_normalize rt env ev = Inr (None, Some r)"
  shows "api_lambda_handler rt env st ev = (Inr r, st)"
  using assms by (simp add: api_lambda_handler_def)

lemma publish_cases:
  "publish_to_sqs rt env st m = (ok, st') \<Longrightarrow>
     (ok \<longrightarrow> (\<exists>attrs. sqs_messages st' = sqs_messages st @ [(json_dumps rt (JObj m), attrs)]))"
  unfolding publish_to_sqs_def get_queue_url_def Let_def
  by (auto split: option.splits if_splits sum.splits prod.splits)

text \<open>
  Claim C8, as amended: for every plain-text request with a non-blank body and an
  \<open>X-Tenant-ID\<close> header (looked up without regard to case) whose value is not empty,
  normalization succeeds, and the message has the header value as \<open>tenant_id\<close>,
  \<open>text_upload\<close> as \<open>source\<close> and the whole body as \<open>normalized_text\<close>.
\<close>

theorem plain_text_normalized:
  assumes "plain_text_request rt ev" "body ev = Some b" "str_strip (unicode rt) b \<noteq> []"
    and "lower_keys rt (headers ev) (ustr ''x-tenant-id'') = Some v" "v \<noteq> []"
  shows "\<exists>m. validate_and_normalize rt env ev = Inr (Some m, None)
     \<and> dict_get m (ustr ''tenant_id'') = JStr v
     \<and> dict_get m (ustr ''source'') = JStr (ustr ''text_upload'')
     \<and> dict_get m (ustr ''normalized_text'') = JStr b"
  using validate_plain_text[OF assms(1,2,3), of env] assms(4,5)
  by (simp add: make_message_fields)

theorem plain_text_normalized_witness:
  "\<exists>m. validate_and_normalize sample_runtime sample_api_env ev_text_acme = Inr (Some m, None)
     \<and> dict_get m (ustr ''tenant_id'') = JStr (ustr ''acme'')
     \<and> dict_get m (ustr ''source'') = JStr (ustr ''text_upload'')
     \<and> dict_get m (ustr ''normalized_text'') = JStr (ustr ''User 555-0199 accessed /api/login'')"
proof -
  have 1: "plain_text_request sample_runtime ev_text_acme"
    by (simp add: ev_text_acme_def sample_eval)
  have 2: "body ev_text_acme = Some (ustr ''User 555-0199 accessed /api/login'')"
    by (simp add: ev_text_acme_def post_ingest_def)
  have 3: "str_strip (unicode sample_runtime) (ustr ''User 555-0199 accessed /api/login'') \<noteq> []"
    by (simp add: sample_eval)
  have 4: "lower_keys sample_runtime (headers ev_text_acme) (ustr ''x-tenant-id'') = Some (ustr ''acme'')"
    by (simp add: ev_text_acme_def sample_eval)
  have 5: "ustr ''acme'' \<noteq> []" by (simp add: ustr_def)
  show ?thesis by (rule plain_text_normalized[OF 1 2 3 4 5])
qed

text \<open>
  Claim C8 as stated fails: a plain-text request with a non-blank body whose
  \<open>X-Tenant-ID\<close> header is present and empty is refused with status 400.
\<close>

theorem empty_tenant_header_rejected:
  "plain_text_request sample_runtime ev_text_empty_tenant
   \<and> body ev_text_empty_tenant = Some (ustr ''hello'')
   \<and> str_strip (unicode sample_runtime) (ustr ''hello'') \<noteq> []
   \<and> lower_keys sample_runtime (headers ev_text_empty_tenant) (ustr ''x-tenant-id'') = Some []
   \<and> validate_and_normalize sample_runtime sample_api_env ev_text_empty_tenant
       = Inr (None, Some (bad_request sample_runtime
           (ustr ''X-Tenant-ID header is required for text/plain requests'')))"
  by (simp add: validate_and_normalize_def ev_text_empty_tenant_def sample_eval)

text \<open>
  What the normalizer does check of an accepted request: the body is not empty after
  trimming and \<open>normalized_text\<close> has a true truth value; for a plain-text request
  \<open>normalized_text\<close> is the body, hence not empty after trimming.
\<close>

lemma accepted_text_truthy:
  assumes "validate_and_normalize rt env ev = Inr (Some m, None)"
  shows "(\<exists>b. body ev = Some b \<and> str_strip (unicode rt) b \<noteq> []
            \<and> (plain_text_request rt ev \<longrightarrow> dict_get m (ustr ''normalized_text'') = JStr b))
         \<and> truthy (dict_get m (ustr ''normalized_text''))"
proof -
  obtain b where b: "body ev = Some b" "str_strip (unicode rt) b \<noteq> []"
    using assms unfolding validate_and_normalize_def Let_def
    by (cases "body ev") (auto simp: str_strip_Nil split: if_splits)
  have t: "truthy (dict_get m (ustr ''normalized_text''))"
    using assms unfolding validate_and_normalize_def Let_def
    by (auto simp: make_message_fields str_strip_Nil split: if_splits sum.splits loaded.splits json.splits option.splits)
  have p: "dict_get m (ustr ''normalized_text'') = JStr b" if "plain_text_request rt ev"
    using validate_plain_text[OF that b, of env] assms
    by (auto simp: make_message_fields split: option.splits if_splits)
  show ?thesis using b t p by blast
qed

lemma accepted_text_truthy_witness:
  "(\<exists>b. body ev_text_acme = Some b \<and> str_strip (unicode sample_runtime) b \<noteq> []
      \<and> plain_text_request sample_runtime ev_text_acme
      \<and> dict_get (make_message sample_api_env (lower_keys sample_runtime (headers ev_text_acme))
            (JStr (ustr ''acme'')) JNull (JStr (ustr ''User 555-0199 accessed /api/login'')) (ustr ''text_upload''))
          (ustr ''normalized_text'') = JStr b)
   \<and> truthy (dict_get (make_message sample_api_env (lower_keys sample_runtime (headers ev_text_acme))
            (JStr (ustr ''acme'')) JNull (JStr (ustr ''User 555-0199 accessed /api/login'')) (ustr ''text_upload''))
          (ustr ''normalized_text''))"
proof -
  have v: "validate_and_normalize sample_runtime sample_api_env ev_text_acme =
      Inr (Some (make_message sample_api_env (lower_keys sample_runtime (headers ev_text_acme))
            (JStr (ustr ''acme'')) JNull (JStr (ustr ''User 555-0199 accessed /api/login'')) (ustr ''text_upload'')), None)"
    by (simp add: validate_and_normalize_def ev_text_acme_def sample_eval)
  have p: "plain_text_request sample_runtime ev_text_acme"
    by (simp add: ev_text_acme_def sample_eval)
  from accepted_text_truthy[OF v] p show ?thesis by blast
qed

text \<open>The plain-text path refuses a blank body.\<close>

lemma blank_plain_text_refused:
  assumes "body ev = Some b" "str_strip (unicode rt) b = []"
  shows "validate_and_normalize rt env ev
     = Inr (None, Some (bad_request rt (ustr ''Request body cannot be empty'')))"
  using assms by (simp add: validate_and_normalize_def)

text \<open>
  Claim C6 at the JSON body \<open>{"tenant_id": "acme", "text": "   "}\<close>: the request is
  accepted, and the \<open>normalized_text\<close> of its message is three spaces, empty after
  trimming. The JSON path tests the text field with \<open>not\<close> only, where the check of the
  body uses \<open>strip\<close>.
\<close>

theorem blank_json_text_accepted:
  "validate_and_normalize sample_runtime sample_api_env ev_json_blank_text
     = Inr (Some (make_message sample_api_env (lower_keys sample_runtime (headers ev_json_blank_text))
              (JStr (ustr ''acme'')) JNull (JStr (ustr ''   '')) (ustr ''json_upload'')), None)
   \<and> dict_get (make_message sample_api_env (lower_keys sample_runtime (headers ev_json_blank_text))
              (JStr (ustr ''acme'')) JNull (JStr (ustr ''   '')) (ustr ''json_upload''))
         (ustr ''normalized_text'') = JStr (ustr ''   '')
   \<and> str_strip (unicode sample_runtime) (ustr ''   '') = []"
proof -
  have "validate_and_normalize sample_runtime sample_api_env ev_json_blank_text
     = Inr (Some (make_message sample_api_env (lower_keys sample_runtime (headers ev_json_blank_text))
              (JStr (ustr ''acme'')) JNull (JStr (ustr ''   '')) (ustr ''json_upload'')), None)"
    by (simp add: validate_and_normalize_def ev_json_blank_text_def sample_eval dict_get_def)
  moreover have "str_strip (unicode sample_runtime) (ustr ''   '') = []"
    by (simp add: sample_eval)
  ultimately show ?thesis by (simp add: make_message_fields)
qed

text \<open>The same test accepts a text that is not a string.\<close>

lemma number_json_text_accepted:
  "validate_and_normalize sample_runtime sample_api_env ev_json_number_text
     = Inr (Some (make_message sample_api_env (lower_keys sample_runtime (headers ev_json_number_text))
              (JStr (ustr ''acme'')) JNull (JInt 5) (ustr ''json_upload'')), None)
   \<and> dict_get (make_message sample_api_env (lower_keys sample_runtime (headers ev_json_number_text))
              (JStr (ustr ''acme'')) JNull (JInt 5) (ustr ''json_upload''))
         (ustr ''normalized_text'') = JInt 5"
proof -
  have "validate_and_normalize sample_runtime sample_api_env ev_json_number_text
     = Inr (Some (make_message sample_api_env (lower_keys sample_runtime (headers ev_json_number_text))
              (JStr (ustr ''acme'')) JNull (JInt 5) (ustr ''json_upload'')), None)"
    by (simp add: validate_and_normalize_def ev_json_number_text_def sample_eval dict_get_def)
  then show ?thesis by (simp add: make_message_fields)
qed

text \<open>
  Claim C4 at the JSON body \<open>[]\<close>: the request has no \<open>tenant_id\<close> field, and the
  normalizer raises \<open>AttributeError\<close> instead of returning a response with status 400;
  nothing is published.
\<close>

theorem json_array_payload_raises:
  "json_request sample_runtime ev_json_array
   \<and> validate_and_normalize sample_runtime sample_api_env ev_json_array = Inl AttributeError"
  by (simp add: validate_and_normalize_def ev_json_array_def sample_eval)

text \<open>The handler passes the exception on, and the queue is as it was.\<close>

lemma json_array_handler_raises:
  "api_lambda_handler sample_runtime sample_api_env fresh_api_state ev_json_array
     = (Inl AttributeError, fresh_api_state)"
  by (simp add: api_lambda_handler_def validate_and_normalize_def ev_json_array_def sample_eval)

text \<open>
  Claim C7: for a request to \<open>POST /ingest\<close>, a validation error is returned as it is and
  has status 400; a message that was normalized and published gives status 202 with a body
  that holds the message's \<open>log_id\<close> and \<open>request_id\<close>, and the message is on the queue;
  a failed publish gives status 500, never 202.
\<close>

theorem http_outcome_mapping:
  assumes "http_method ev = ustr ''POST''" "rawPath ev = ustr ''/ingest''"
  shows "(validate_and_normalize rt env ev = Inr (None, Some err) \<longrightarrow>
            api_lambda_handler rt env st ev = (Inr err, st) \<and> status_code err = JInt 400)
       \<and> (validate_and_normalize rt env ev = Inr (Some m, None) \<longrightarrow>
            publish_to_sqs rt env st m = (True, st') \<longrightarrow>
            (\<exists>resp. api_lambda_handler rt env st ev = (Inr resp, st')
               \<and> status_code resp = JInt 202
               \<and> dict_get resp (ustr ''body'') = JStr (json_dumps rt (JObj
                    [(ustr ''status'', JStr (ustr ''accepted'')),
                     (ustr ''log_id'', dict_get m (ustr ''log_id'')),
                     (ustr ''request_id'', dict_get m (ustr ''request_id''))]))
               \<and> (\<exists>attrs. sqs_messages st' = sqs_messages st @ [(json_dumps rt (JObj m), attrs)])))
       \<and> (validate_and_normalize rt env ev = Inr (Some m, None) \<longrightarrow>
            publish_to_sqs rt env st m = (False, st') \<longrightarrow>
            (\<exists>resp. api_lambda_handler rt env st ev = (Inr resp, st')
               \<and> status_code resp = JInt 500 \<and> status_code resp \<noteq> JInt 202))"
proof (intro conjI impI)
  assume v: "validate_and_normalize rt env ev = Inr (None, Some err)"
  show "api_lambda_handler rt env st ev = (Inr err, st)"
    using assms v by (simp add: api_lambda_handler_def)
  from validate_shape[OF v] show "status_code err = JInt 400"
    by (auto simp: status_bad_request)
next
  assume v: "validate_and_normalize rt env ev = Inr (Some m, None)"
    and p: "publish_to_sqs rt env st m = (True, st')"
  have h: "api_lambda_handler rt env st ev = (Inr (accepted_response rt m), st')"
    using assms v p by (simp add: api_lambda_handler_def)
  have s: "status_code (accepted_response rt m) = JInt 202"
    by (simp add: status_code_def accepted_response_def dict_get_def ustr_def)
  have b: "dict_get (accepted_response rt m) (ustr ''body'') = JStr (json_dumps rt (JObj
                    [(ustr ''status'', JStr (ustr ''accepted'')),
                     (ustr ''log_id'', dict_get m (ustr ''log_id'')),
                     (ustr ''request_id'', dict_get m (ustr ''request_id''))]))"
    by (simp add: accepted_response_def dict_get_def[of "_ # _"] ustr_def)
  from publish_cases[OF p] h s b
  show "\<exists>resp. api_lambda_handler rt env st ev = (Inr resp, st')
               \<and> status_code resp = JInt 202
               \<and> dict_get resp (ustr ''body'') = JStr (json_dumps rt (JObj
                    [(ustr ''status'', JStr (ustr ''accepted'')),
                     (ustr ''log_id'', dict_get m (ustr ''log_id'')),
                     (ustr ''request_id'', dict_get m (ustr ''request_id''))]))
               \<and> (\<exists>attrs. sqs_messages st' = sqs_messages st @ [(json_dumps rt (JObj m), attrs)])"
    by simp
next
  assume v: "validate_and_normalize rt env ev = Inr (Some m, None)"
    and p: "publish_to_sqs rt env st m = (False, st')"
  have h: "api_lambda_handler rt env st ev = (Inr (error_response rt 500 (ustr ''Internal Server Error'')
                          (ustr ''Failed to publish message to queue'')), st')"
    using assms v p by (simp add: api_lambda_handler_def)
  have s: "status_code (error_response rt 500 e msg) = JInt 500" for e msg
    by (simp add: status_code_def error_response_def dict_get_def ustr_def)
  from h s show "\<exists>resp. api_lambda_handler rt env st ev = (Inr resp, st')
               \<and> status_code resp = JInt 500 \<and> status_code resp \<noteq> JInt 202"
    by simp
qed

theorem http_outcome_mapping_witness:
  "status_code (bad_request sample_runtime (ustr ''X-Tenant-ID header is required for text/plain requests'')) = JInt 400
   \<and> api_lambda_handler sample_runtime sample_api_env fresh_api_state ev_text_empty_tenant
       = (Inr (bad_request sample_runtime (ustr ''X-Tenant-ID header is required for text/plain requests'')), fresh_api_state)
   \<and> (\<exists>resp st'. api_lambda_handler sample_runtime sample_api_env fresh_api_state ev_text_acme = (Inr resp, st')
         \<and> status_code resp = JInt 202 \<and> length (sqs_messages st') = 1)
   \<and> (\<exists>resp st'. api_lambda_handler sample_runtime (sample_api_env\<lparr>send_message_raises := True\<rparr>)
           fresh_api_state ev_text_acme = (Inr resp, st')
         \<and> status_code resp = JInt 500 \<and> sqs_messages st' = [])"
proof -
  let ?err = "bad_request sample_runtime (ustr ''X-Tenant-ID header is required for text/plain requests'')"
  let ?down = "sample_api_env\<lparr>send_message_raises := True\<rparr>"
  let ?m = "make_message sample_api_env (lower_keys sample_runtime (headers ev_text_acme))
            (JStr (ustr ''acme'')) JNull (JStr (ustr ''User 555-0199 accessed /api/login'')) (ustr ''text_upload'')"
  let ?m' = "make_message ?down (lower_keys sample_runtime (headers ev_text_acme))
            (JStr (ustr ''acme'')) JNull (JStr (ustr ''User 555-0199 accessed /api/login'')) (ustr ''text_upload'')"
  have r: "http_method ev_text_acme = ustr ''POST''" "rawPath ev_text_acme = ustr ''/ingest''"
    "http_method ev_text_empty_tenant = ustr ''POST''" "rawPath ev_text_empty_tenant = ustr ''/ingest''"
    by (simp_all add: ev_text_acme_def ev_text_empty_tenant_def post_ingest_def)
  have v0: "validate_and_normalize sample_runtime sample_api_env ev_text_empty_tenant = Inr (None, Some ?err)"
    by (simp add: validate_and_normalize_def ev_text_empty_tenant_def sample_eval)
  have v1: "validate_and_normalize sample_runtime sample_api_env ev_text_acme = Inr (Some ?m, None)"
    by (simp add: validate_and_normalize_def ev_text_acme_def sample_eval)
  have v2: "validate_and_normalize sample_runtime ?down ev_text_acme = Inr (Some ?m', None)"
    by (simp add: validate_and_normalize_def ev_text_acme_def sample_eval)
  have "fst (publish_to_sqs sample_runtime sample_api_env fresh_api_state ?m) = True"
    by (simp add: publish_to_sqs_def get_queue_url_def make_message_def subscript_def ustr_def
        sample_api_env_def fresh_api_state_def Let_def)
  then obtain st1 where p1: "publish_to_sqs sample_runtime sample_api_env fresh_api_state ?m = (True, st1)"
    by (cases "publish_to_sqs sample_runtime sample_api_env fresh_api_state ?m") simp
  have p2f: "fst (publish_to_sqs sample_runtime ?down fresh_api_state ?m') = False"
    "sqs_messages (snd (publish_to_sqs sample_runtime ?down fresh_api_state ?m')) = []"
    by (simp_all add: publish_to_sqs_def get_queue_url_def make_message_def subscript_def ustr_def
        sample_api_env_def fresh_api_state_def Let_def)
  then obtain st2 where p2: "publish_to_sqs sample_runtime ?down fresh_api_state ?m' = (False, st2)"
    and q2: "sqs_messages st2 = []"
    by (cases "publish_to_sqs sample_runtime ?down fresh_api_state ?m'") simp
  note a = http_outcome_mapping[OF r(3,4), of sample_runtime sample_api_env ?err fresh_api_state]
  note b = http_outcome_mapping[OF r(1,2), of sample_runtime sample_api_env _ fresh_api_state ?m st1]
  note c = http_outcome_mapping[OF r(1,2), of sample_runtime ?down _ fresh_api_state ?m' st2]
  have e0: "sqs_messages fresh_api_state = []" by (simp add: fresh_api_state_def)
  from a v0 have A: "status_code ?err = JInt 400"
      "api_lambda_handler sample_runtime sample_api_env fresh_api_state ev_text_empty_tenant = (Inr ?err, fresh_api_state)"
    by blast+
  from b v1 p1 e0 have B: "\<exists>resp st'. api_lambda_handler sample_runtime sample_api_env fresh_api_state ev_text_acme = (Inr resp, st')
         \<and> status_code resp = JInt 202 \<and> length (sqs_messages st') = 1"
    by auto
  from c v2 p2 q2 have C: "\<exists>resp st'. api_lambda_handler sample_runtime ?down fresh_api_state ev_text_acme = (Inr resp, st')
         \<and> status_code resp = JInt 500 \<and> sqs_messages st' = []"
    by auto
  from A B C show ?thesis by blast
qed

section \<open>The worker: batches, the store and the persisted record\<close>

lemma put_item_Nil: "put_item [] item = [item]"
  by (simp add: put_item_def)

lemma coherent_cold: "coherent env cold_start"
  by (simp add: coherent_def cold_start_def)

lemma store_rel:
  assumes "coherent env st"
  shows "fst (store_processed_log env i st msg md a w) = fst (store_processed_log env i cold_start msg md a w)
    \<and> stored (snd (store_processed_log env i st msg md a w))
        = foldl put_item (stored st) (stored (snd (store_processed_log env i cold_start msg md a w)))
    \<and> coherent env (snd (store_processed_log env i st msg md a w))
    \<and> length (stored (snd (store_processed_log env i cold_start msg md a w)))
        = (if fst (store_processed_log env i cold_start msg md a w) then 1 else 0)"
  using assms
  unfolding store_processed_log_def get_dynamodb_table_def coherent_def cold_start_def Let_def
  by (auto simp: put_item_Nil split: option.splits sum.splits if_splits)

lemma stored_cold: "stored cold_start = []"
  by (simp add: cold_start_def)

lemmas worker_eval = process_record_def process_message_def store_processed_log_def
  get_dynamodb_table_def build_item_def message_keys_def receive_count_def cold_start_def
  sample_worker_env_def sample_runtime_def sample_loads_def delivered_def
  doc_first_def doc_second_def doc_other_def doc_broken_def doc_array_def doc_no_tenant_def doc_blank_text_def
  doc_number_text_def   queued_def dict_get_def ustr_def Let_def

lemma store_True:
  assumes "store_processed_log env i st m d a w = (True, st')"
  shows "\<exists>item. build_item env i m d a w = Inr item \<and> stored st' = put_item (stored st) item"
  using assms unfolding store_processed_log_def get_dynamodb_table_def Let_def
  by (auto split: option.splits sum.splits if_splits)

lemma store_False:
  assumes "store_processed_log env i st m d a w = (False, st')"
  shows "stored st' = stored st"
  using assms unfolding store_processed_log_def get_dynamodb_table_def Let_def
  by (auto split: option.splits sum.splits if_splits)

lemma build_item_fields:
  assumes "build_item env i m d a w = Inr item"
  shows "item_key item = (Some (dict_get m (ustr ''tenant_id'')), Some (dict_get m (ustr ''log_id'')))"
    and "dict_get item (ustr ''modified_data'') = JStr d"
    and "dict_get item (ustr ''original_text'') = dict_get m (ustr ''normalized_text'')"
  using assms
  by (auto simp: build_item_def item_key_def dict_get_def ustr_def split: if_splits)

lemma put_item_member: "item \<in> set (put_item items item)"
  by (simp add: put_item_def)

lemma put_item_one: "filter (\<lambda>x. item_key x = item_key item) (put_item items item) = [item]"
  by (induction items) (simp_all add: put_item_def)

lemma store_exact:
  assumes "coherent env st"
  shows "fst (store_processed_log env i st d md a w)
           = (list_all (\<lambda>k. map_of d k \<noteq> None)
                [ustr ''tenant_id'', ustr ''log_id'', ustr ''source'', ustr ''normalized_text'',
                 ustr ''received_at'', ustr ''request_id'']
              \<and> table_configured env \<and> \<not> put_item_raises env i)"
    and "stored (snd (store_processed_log env i st d md a w))
           = (if fst (store_processed_log env i st d md a w) then
                put_item (stored st)
                  [(ustr ''tenant_id'', dict_get d (ustr ''tenant_id'')),
                   (ustr ''log_id'', dict_get d (ustr ''log_id'')),
                   (ustr ''source'', dict_get d (ustr ''source'')),
                   (ustr ''original_text'', dict_get d (ustr ''normalized_text'')),
                   (ustr ''modified_data'', JStr md),
                   (ustr ''processed_at'', JStr (utcnow_at env i @ ustr ''Z'')),
                   (ustr ''received_at'', dict_get d (ustr ''received_at'')),
                   (ustr ''request_id'', dict_get d (ustr ''request_id'')),
                   (ustr ''worker_id'', JStr w),
                   (ustr ''attempt'', JInt a)]
              else stored st)"
    and "coherent env (snd (store_processed_log env i st d md a w))"
  using assms
  unfolding store_processed_log_def get_dynamodb_table_def build_item_def message_keys_def
    coherent_def table_configured_def Let_def
  by (auto split: option.splits if_splits)

lemma message_exact:
  assumes "coherent env st" "dict_get d (ustr ''normalized_text'') = JStr t"
  shows "process_message rt env i st (JObj d) rh w a
           = (Inr (fst (store_processed_log env i st d (redact_phone_numbers (unicode rt) t) a w)),
              snd (store_processed_log env i st d (redact_phone_numbers (unicode rt) t) a w))"
  using assms by (simp add: process_message_def Let_def split_beta)

lemma message_not_text:
  assumes "\<forall>t. dict_get d (ustr ''normalized_text'') \<noteq> JStr t"
  shows "process_message rt env i st (JObj d) rh w a = (Inr False, st)"
  using assms by (cases "dict_get d (ustr ''normalized_text'')") (simp_all add: process_message_def)

lemma message_not_object:
  assumes "\<forall>d. mb \<noteq> JObj d"
  shows "process_message rt env i st mb rh w a = (Inl AttributeError, st)"
  using assms by (cases mb) (simp_all add: process_message_def)

lemma receive_count_expected:
  "receive_count rt r = (case expected_attempt rt r of None \<Rightarrow> Inl ValueError | Some a \<Rightarrow> Inr a)"
  by (simp add: receive_count_def expected_attempt_def split: option.splits)

lemma record_exact:
  assumes "coherent env st"
  shows "fst (process_record rt env w i st r) = (expected_item rt env w (i, r) \<noteq> None)
    \<and> stored (snd (process_record rt env w i st r))
         = (case expected_item rt env w (i, r) of None \<Rightarrow> stored st | Some item \<Rightarrow> put_item (stored st) item)
    \<and> coherent env (snd (process_record rt env w i st r))"
proof (cases "json_loads rt (record_body r)")
  case (Decoded mb)
  show ?thesis
  proof (cases "expected_attempt rt r")
    case None
    then show ?thesis using assms Decoded
      by (auto simp: process_record_def expected_item_def receive_count_expected
          split: json.splits)
  next
    case (Some a)
    show ?thesis
    proof (cases "\<exists>d. mb = JObj d")
      case False
      then have nd: "\<forall>d. mb \<noteq> JObj d" by simp
      have "expected_item rt env w (i, r) = None"
        using nd Decoded by (cases mb) (simp_all add: expected_item_def)
      then show ?thesis using assms Decoded Some message_not_object[OF nd]
        by (simp add: process_record_def receive_count_expected)
    next
      case True
      then obtain d where d: "mb = JObj d" by blast
      show ?thesis
      proof (cases "\<exists>t. dict_get d (ustr ''normalized_text'') = JStr t")
        case False
        then have nt: "\<forall>t. dict_get d (ustr ''normalized_text'') \<noteq> JStr t" by simp
        have "expected_item rt env w (i, r) = None"
          using nt Decoded d
          by (cases "dict_get d (ustr ''normalized_text'')") (simp_all add: expected_item_def)
        then show ?thesis using assms Decoded Some d message_not_text[OF nt]
          by (simp add: process_record_def receive_count_expected)
      next
        case True
        then obtain t where t: "dict_get d (ustr ''normalized_text'') = JStr t" by blast
        note s = store_exact[OF assms, of i d "redact_phone_numbers (unicode rt) t" a w]
        note m = message_exact[OF assms t, of rt i "receiptHandle r" w a]
        let ?ok = "fst (store_processed_log env i st d (redact_phone_numbers (unicode rt) t) a w)"
        have pr: "process_record rt env w i st r
            = (?ok, snd (store_processed_log env i st d (redact_phone_numbers (unicode rt) t) a w))"
          using Decoded Some d m by (simp add: process_record_def receive_count_expected)
        have ex: "expected_item rt env w (i, r) =
            (if ?ok then
               Some [(ustr ''tenant_id'', dict_get d (ustr ''tenant_id'')),
                   (ustr ''log_id'', dict_get d (ustr ''log_id'')),
                   (ustr ''source'', dict_get d (ustr ''source'')),
                   (ustr ''original_text'', dict_get d (ustr ''normalized_text'')),
                   (ustr ''modified_data'', JStr (redact_phone_numbers (unicode rt) t)),
                   (ustr ''processed_at'', JStr (utcnow_at env i @ ustr ''Z'')),
                   (ustr ''received_at'', dict_get d (ustr ''received_at'')),
                   (ustr ''request_id'', dict_get d (ustr ''request_id'')),
                   (ustr ''worker_id'', JStr w),
                   (ustr ''attempt'', JInt a)]
             else None)"
          unfolding s(1) using Decoded Some d t by (simp add: expected_item_def)
        show ?thesis unfolding pr ex using s(2,3) by simp
      qed
    qed
  qed
next
  case (JSONDecodeError e)
  then show ?thesis using assms by (simp add: process_record_def expected_item_def)
next
  case (Raised e)
  then show ?thesis using assms by (simp add: process_record_def expected_item_def)
qed

lemma records_exact:
  assumes "coherent env st"
  shows "fst (process_records rt env w i st fails rs)
           = fails @ map (messageId \<circ> snd) (filter (\<lambda>ir. expected_item rt env w ir = None) (enumerate i rs))
    \<and> stored (snd (process_records rt env w i st fails rs))
           = foldl put_item (stored st) (List.map_filter (expected_item rt env w) (enumerate i rs))
    \<and> coherent env (snd (process_records rt env w i st fails rs))"
  using assms
proof (induction rs arbitrary: i st fails)
  case Nil
  then show ?case by (simp add: map_filter_simps)
next
  case (Cons r rs)
  obtain ok st' where p: "process_record rt env w i st r = (ok, st')"
    by (cases "process_record rt env w i st r")
  from record_exact[OF Cons.prems, of rt w i r] p
  have ok: "ok = (expected_item rt env w (i, r) \<noteq> None)"
    and st: "stored st' = (case expected_item rt env w (i, r) of None \<Rightarrow> stored st
                            | Some item \<Rightarrow> put_item (stored st) item)"
    and co: "coherent env st'" by simp_all
  show ?case using Cons.IH[OF co, of "Suc i"] p ok st
    by (auto simp: enumerate_simps map_filter_simps split: option.splits)
qed

lemma filter_enumerate_none:
  "(\<And>j. j < length rs \<Longrightarrow> \<not> P (n + j, rs ! j)) \<Longrightarrow> filter P (enumerate n rs) = []"
proof (induction rs arbitrary: n)
  case Nil
  then show ?case by simp
next
  case (Cons r rs)
  have h: "\<not> P (n, r)" using Cons.prems[of 0] by simp
  have "filter P (enumerate (Suc n) rs) = []"
  proof (rule Cons.IH)
    fix j assume "j < length rs"
    then show "\<not> P (Suc n + j, rs ! j)" using Cons.prems[of "Suc j"] by simp
  qed
  then show ?case using h by (simp add: enumerate_simps)
qed

lemma filter_enumerate_one:
  "k < length rs \<Longrightarrow> (\<And>j. j < length rs \<Longrightarrow> P (n + j, rs ! j) = (j = k)) \<Longrightarrow>
     filter P (enumerate n rs) = [(n + k, rs ! k)]"
proof (induction rs arbitrary: n k)
  case Nil
  then show ?case by simp
next
  case (Cons r rs)
  show ?case
  proof (cases k)
    case 0
    have h: "P (n, r)" using Cons.prems(2)[of 0] 0 by simp
    have "filter P (enumerate (Suc n) rs) = []"
    proof (rule filter_enumerate_none)
      fix j assume "j < length rs"
      then show "\<not> P (Suc n + j, rs ! j)" using Cons.prems(2)[of "Suc j"] 0 by simp
    qed
    then show ?thesis using h 0 by (simp add: enumerate_simps)
  next
    case (Suc k')
    have h: "\<not> P (n, r)" using Cons.prems(2)[of 0] Suc by simp
    have "filter P (enumerate (Suc n) rs) = [(Suc n + k', rs ! k')]"
    proof (rule Cons.IH)
      show "k' < length rs" using Cons.prems(1) Suc by simp
      fix j assume "j < length rs"
      then show "P (Suc n + j, rs ! j) = (j = k')" using Cons.prems(2)[of "Suc j"] Suc by simp
    qed
    then show ?thesis using h Suc by (simp add: enumerate_simps)
  qed
qed

lemma map_filter_length:
  "length (List.map_filter f xs) + length (filter (\<lambda>x. f x = None) xs) = length xs"
  by (induction xs) (auto simp: map_filter_simps split: option.splits)

lemma put_item_fresh:
  "\<forall>x \<in> set items. item_key x \<noteq> item_key item \<Longrightarrow> put_item items item = items @ [item]"
  by (simp add: put_item_def)

lemma put_items_distinct:
  "distinct (map item_key items) \<Longrightarrow> \<forall>x \<in> set tbl. item_key x \<notin> item_key ` set items \<Longrightarrow>
     foldl put_item tbl items = tbl @ items"
proof (induction items arbitrary: tbl)
  case Nil
  then show ?case by simp
next
  case (Cons item items)
  have f: "put_item tbl item = tbl @ [item]"
    using Cons.prems(2) by (intro put_item_fresh) auto
  have "foldl put_item (tbl @ [item]) items = (tbl @ [item]) @ items"
    using Cons.prems by (intro Cons.IH) auto
  then show ?case using f by simp
qed

lemma failing_in_failures:
  assumes "j < length rs" "expected_item rt env w (j, rs ! j) = None"
  shows "messageId (rs ! j) \<in> set (expected_failures rt env w rs)"
proof -
  have "(j, rs ! j) \<in> set (enumerate 0 rs)"
    using assms(1) by (auto simp: in_set_enumerate_eq)
  then have "(j, rs ! j) \<in> set (filter (\<lambda>ir. expected_item rt env w ir = None) (enumerate 0 rs))"
    using assms(2) by simp
  then have "(messageId \<circ> snd) (j, rs ! j) \<in> set (expected_failures rt env w rs)"
    unfolding expected_failures_def set_map by (rule imageI)
  then show ?thesis by simp
qed

lemma undecoded_has_no_item:
  "\<forall>d. json_loads rt (record_body (snd ir)) \<noteq> Decoded d \<Longrightarrow> expected_item rt env w ir = None"
  by (cases "json_loads rt (record_body (snd ir))") (simp_all add: expected_item_def)

lemma one_failure:
  assumes k: "k < length rs"
    and ex: "\<And>j. j < length rs \<Longrightarrow> (expected_item rt env w (j, rs ! j) = None) = (j = k)"
  shows "expected_failures rt env w rs = [messageId (rs ! k)]"
    and "length (expected_items rt env w rs) = length rs - 1"
proof -
  have f: "filter (\<lambda>ir. expected_item rt env w ir = None) (enumerate 0 rs) = [(0 + k, rs ! k)]"
    using k ex by (intro filter_enumerate_one) simp_all
  then show "expected_failures rt env w rs = [messageId (rs ! k)]"
    by (simp add: expected_failures_def)
  have "length (expected_items rt env w rs)
      + length (filter (\<lambda>ir. expected_item rt env w ir = None) (enumerate 0 rs)) = length (enumerate 0 rs)"
    unfolding expected_items_def by (rule map_filter_length)
  then show "length (expected_items rt env w rs) = length rs - 1"
    using f by simp
qed

lemmas expected_eval = expected_item_def expected_attempt_def table_configured_def
  sample_worker_env_def sample_runtime_def sample_loads_def delivered_def sample_item_def
  doc_first_def doc_second_def doc_other_def doc_broken_def doc_array_def doc_no_tenant_def
  doc_blank_text_def doc_number_text_def queued_def dict_get_def ustr_def ascii_ucd_def

text \<open>
  Claim C1: from any state the worker can be in, the handler returns the dictionary whose
  \<open>batchItemFailures\<close> lists, as \<open>itemIdentifier\<close>, exactly the identifiers of the items
  that fail, in the order of the batch, and writes to the table exactly the records of the
  other items, each with the fields of its message, the original and the redacted text,
  the worker and the attempt. An item's outcome depends on that item alone, so a failure
  neither aborts nor discards the others; every item is reported or written. An item whose
  body does not decode is reported. When exactly the item at position \<open>k\<close> of \<open>N\<close>
  fails, the list is that item's identifier alone and \<open>N - 1\<close> records are written; they
  are \<open>N - 1\<close> new items of the table when their keys differ from each other and from the
  keys already there.
\<close>

theorem partial_batch_isolation:
  assumes "coherent env st"
  shows "fst (worker_lambda_handler rt env ctx st rs)
           = [(ustr ''batchItemFailures'',
               JArr (map (\<lambda>ident. JObj [(ustr ''itemIdentifier'', JStr ident)])
                      (expected_failures rt env (worker_name ctx) rs)))]
     \<and> stored (snd (worker_lambda_handler rt env ctx st rs))
           = foldl put_item (stored st) (expected_items rt env (worker_name ctx) rs)
     \<and> length (expected_items rt env (worker_name ctx) rs)
         + length (expected_failures rt env (worker_name ctx) rs) = length rs
     \<and> (\<forall>j. j < length rs \<longrightarrow> (\<forall>d. json_loads rt (record_body (rs ! j)) \<noteq> Decoded d) \<longrightarrow>
           messageId (rs ! j) \<in> set (expected_failures rt env (worker_name ctx) rs))
     \<and> (\<forall>k. k < length rs \<longrightarrow>
           (\<forall>j. j < length rs \<longrightarrow> (expected_item rt env (worker_name ctx) (j, rs ! j) = None) = (j = k)) \<longrightarrow>
           expected_failures rt env (worker_name ctx) rs = [messageId (rs ! k)]
           \<and> length (expected_items rt env (worker_name ctx) rs) = length rs - 1)
     \<and> (distinct (map item_key (expected_items rt env (worker_name ctx) rs))
          \<and> (\<forall>x \<in> set (stored st). item_key x \<notin> item_key ` set (expected_items rt env (worker_name ctx) rs))
         \<longrightarrow> stored (snd (worker_lambda_handler rt env ctx st rs))
               = stored st @ expected_items rt env (worker_name ctx) rs)"
proof -
  let ?w = "worker_name ctx"
  note r = records_exact[OF assms, where rt=rt and w="?w" and i=0 and fails="[]" and rs=rs]
  have h: "worker_lambda_handler rt env ctx st rs
      = (failures_response (fst (process_records rt env ?w 0 st [] rs)),
         snd (process_records rt env ?w 0 st [] rs))"
    by (simp add: worker_lambda_handler_def worker_name_def split_beta Let_def)
  have 1: "fst (worker_lambda_handler rt env ctx st rs)
           = [(ustr ''batchItemFailures'',
               JArr (map (\<lambda>ident. JObj [(ustr ''itemIdentifier'', JStr ident)])
                      (expected_failures rt env ?w rs)))]"
    using r by (simp add: h failures_response_def expected_failures_def)
  have 2: "stored (snd (worker_lambda_handler rt env ctx st rs))
           = foldl put_item (stored st) (expected_items rt env ?w rs)"
    using r by (simp add: h expected_items_def)
  have 3: "length (expected_items rt env ?w rs) + length (expected_failures rt env ?w rs) = length rs"
    using map_filter_length[of "expected_item rt env ?w" "enumerate 0 rs"]
    by (simp add: expected_items_def expected_failures_def)
  have 4: "\<forall>j. j < length rs \<longrightarrow> (\<forall>d. json_loads rt (record_body (rs ! j)) \<noteq> Decoded d) \<longrightarrow>
           messageId (rs ! j) \<in> set (expected_failures rt env ?w rs)"
    using failing_in_failures undecoded_has_no_item[where ir="(_, _)"] by (metis snd_conv)
  have 5: "\<forall>k. k < length rs \<longrightarrow>
           (\<forall>j. j < length rs \<longrightarrow> (expected_item rt env ?w (j, rs ! j) = None) = (j = k)) \<longrightarrow>
           expected_failures rt env ?w rs = [messageId (rs ! k)]
           \<and> length (expected_items rt env ?w rs) = length rs - 1"
    using one_failure[where rs=rs and rt=rt and env=env and w="?w"] by blast
  have 6: "distinct (map item_key (expected_items rt env ?w rs))
          \<and> (\<forall>x \<in> set (stored st). item_key x \<notin> item_key ` set (expected_items rt env ?w rs))
         \<longrightarrow> stored (snd (worker_lambda_handler rt env ctx st rs))
               = stored st @ expected_items rt env ?w rs"
    using 2 put_items_distinct by auto
  from 1 2 3 4 5 6 show ?thesis by blast
qed

theorem partial_batch_isolation_witness:
  "coherent sample_worker_env cold_start
   \<and> fst (worker_lambda_handler sample_runtime sample_worker_env None cold_start sample_batch)
       = [(ustr ''batchItemFailures'', JArr [JObj [(ustr ''itemIdentifier'', JStr (ustr ''m-2''))]])]
   \<and> stored (snd (worker_lambda_handler sample_runtime sample_worker_env None cold_start sample_batch))
       = [sample_item ''001'' ''User 555-0199 accessed /api/login'' ''User [REDACTED] accessed /api/login'',
          sample_item ''002'' ''Order #12345'' ''Order #12345'']"
proof -
  let ?w = "worker_name None"
  let ?a = "sample_item ''001'' ''User 555-0199 accessed /api/login'' ''User [REDACTED] accessed /api/login''"
  let ?b = "sample_item ''002'' ''Order #12345'' ''Order #12345''"
  have c: "coherent sample_worker_env cold_start" by (rule coherent_cold)
  have e0: "expected_item sample_runtime sample_worker_env ?w (i, delivered ''m-1'' doc_first ''1'') = Some ?a" for i
    by (simp add: worker_name_def expected_eval redact_eval)
  have e1: "expected_item sample_runtime sample_worker_env ?w (i, delivered ''m-2'' doc_broken ''1'') = None" for i
    by (simp add: worker_name_def expected_eval)
  have e2: "expected_item sample_runtime sample_worker_env ?w (i, delivered ''m-3'' doc_other ''1'') = Some ?b" for i
    by (simp add: worker_name_def expected_eval redact_eval)
  have len: "length sample_batch = 3" by (simp add: sample_batch_def)
  have ex: "\<forall>j. j < length sample_batch \<longrightarrow>
      (expected_item sample_runtime sample_worker_env ?w (j, sample_batch ! j) = None) = (j = 1)"
  proof (intro allI impI)
    fix j assume "j < length sample_batch"
    then have "j = 0 \<or> j = 1 \<or> j = 2" using len by auto
    then show "(expected_item sample_runtime sample_worker_env ?w (j, sample_batch ! j) = None) = (j = 1)"
      using e0 e1 e2 by (auto simp: sample_batch_def)
  qed
  have items: "expected_items sample_runtime sample_worker_env ?w sample_batch = [?a, ?b]"
    by (simp add: expected_items_def sample_batch_def enumerate_simps map_filter_simps e0 e1 e2)
  have keys: "distinct (map item_key [?a, ?b])"
    by (simp add: item_key_def sample_item_def ustr_def)
  have m: "messageId (sample_batch ! 1) = ustr ''m-2''"
    by (simp add: sample_batch_def delivered_def)
  note t = partial_batch_isolation[OF c, where rt=sample_runtime and ctx=None and rs=sample_batch]
  from t have r: "fst (worker_lambda_handler sample_runtime sample_worker_env None cold_start sample_batch)
       = [(ustr ''batchItemFailures'',
           JArr (map (\<lambda>ident. JObj [(ustr ''itemIdentifier'', JStr ident)])
                  (expected_failures sample_runtime sample_worker_env ?w sample_batch)))]"
    by blast
  from t have "1 < length sample_batch \<longrightarrow>
      (\<forall>j. j < length sample_batch \<longrightarrow>
         (expected_item sample_runtime sample_worker_env ?w (j, sample_batch ! j) = None) = (j = 1)) \<longrightarrow>
      expected_failures sample_runtime sample_worker_env ?w sample_batch = [messageId (sample_batch ! 1)]"
    by blast
  with ex len m have f: "expected_failures sample_runtime sample_worker_env ?w sample_batch = [ustr ''m-2'']"
    by simp
  from t have "distinct (map item_key (expected_items sample_runtime sample_worker_env ?w sample_batch))
          \<and> (\<forall>x \<in> set (stored cold_start).
                item_key x \<notin> item_key ` set (expected_items sample_runtime sample_worker_env ?w sample_batch))
         \<longrightarrow> stored (snd (worker_lambda_handler sample_runtime sample_worker_env None cold_start sample_batch))
               = stored cold_start @ expected_items sample_runtime sample_worker_env ?w sample_batch"
    by blast
  with keys have s: "stored (snd (worker_lambda_handler sample_runtime sample_worker_env None cold_start sample_batch))
      = [?a, ?b]"
    unfolding items by (simp add: cold_start_def)
  from c r f s show ?thesis by simp
qed

text \<open>Two records with one key: both are written, and the table keeps the second.\<close>

lemma same_key_batch:
  "expected_items sample_runtime sample_worker_env (worker_name None)
      [delivered ''m-1'' doc_first ''1'', delivered ''m-4'' doc_second ''1'']
     = [sample_item ''001'' ''User 555-0199 accessed /api/login'' ''User [REDACTED] accessed /api/login'',
        sample_item ''001'' ''Call 555-555-1234'' ''Call [REDACTED]'']
   \<and> stored (snd (worker_lambda_handler sample_runtime sample_worker_env None cold_start
        [delivered ''m-1'' doc_first ''1'', delivered ''m-4'' doc_second ''1'']))
     = [sample_item ''001'' ''Call 555-555-1234'' ''Call [REDACTED]'']"
proof -
  let ?w = "worker_name None"
  let ?rs = "[delivered ''m-1'' doc_first ''1'', delivered ''m-4'' doc_second ''1'']"
  have e0: "expected_item sample_runtime sample_worker_env ?w (i, delivered ''m-1'' doc_first ''1'')
      = Some (sample_item ''001'' ''User 555-0199 accessed /api/login'' ''User [REDACTED] accessed /api/login'')" for i
    by (simp add: worker_name_def expected_eval redact_eval)
  have e1: "expected_item sample_runtime sample_worker_env ?w (i, delivered ''m-4'' doc_second ''1'')
      = Some (sample_item ''001'' ''Call 555-555-1234'' ''Call [REDACTED]'')" for i
    by (simp add: worker_name_def expected_eval redact_eval)
  have items: "expected_items sample_runtime sample_worker_env ?w ?rs
     = [sample_item ''001'' ''User 555-0199 accessed /api/login'' ''User [REDACTED] accessed /api/login'',
        sample_item ''001'' ''Call 555-555-1234'' ''Call [REDACTED]'']"
    by (simp add: expected_items_def enumerate_simps map_filter_simps e0 e1)
  have "stored (snd (worker_lambda_handler sample_runtime sample_worker_env None cold_start ?rs))
      = foldl put_item (stored cold_start) (expected_items sample_runtime sample_worker_env ?w ?rs)"
    using records_exact[OF coherent_cold, where rt=sample_runtime and env=sample_worker_env
        and w="?w" and i=0 and fails="[]" and rs="?rs"]
    by (simp add: worker_lambda_handler_def worker_name_def split_beta Let_def expected_items_def)
  then show ?thesis unfolding items
    by (simp add: cold_start_def put_item_def item_key_def sample_item_def ustr_def)
qed

text \<open>
  Claim C3: two successful writes with the same \<open>(tenant_id, log_id)\<close> leave exactly one
  item under that key: the whole item of the second write, with the second redacted text.
\<close>

theorem store_last_writer_wins:
  assumes w1: "store_processed_log env i st m1 d1 a1 w1 = (True, st1)"
    and w2: "store_processed_log env' j st1 m2 d2 a2 w2 = (True, st2)"
    and key: "dict_get m1 (ustr ''tenant_id'') = dict_get m2 (ustr ''tenant_id'')"
      "dict_get m1 (ustr ''log_id'') = dict_get m2 (ustr ''log_id'')"
  shows "\<exists>item1 item2. build_item env i m1 d1 a1 w1 = Inr item1 \<and> build_item env' j m2 d2 a2 w2 = Inr item2
     \<and> item1 \<in> set (stored st1) \<and> item_key item1 = item_key item2
     \<and> filter (\<lambda>x. item_key x = item_key item2) (stored st2) = [item2]
     \<and> dict_get item2 (ustr ''modified_data'') = JStr d2"
proof -
  from store_True[OF w1] obtain item1 where
    1: "build_item env i m1 d1 a1 w1 = Inr item1" "stored st1 = put_item (stored st) item1" by blast
  from store_True[OF w2] obtain item2 where
    2: "build_item env' j m2 d2 a2 w2 = Inr item2" "stored st2 = put_item (stored st1) item2" by blast
  have k: "item_key item1 = item_key item2"
    using build_item_fields(1)[OF 1(1)] build_item_fields(1)[OF 2(1)] key by simp
  show ?thesis
    using 1 2 k put_item_member put_item_one build_item_fields(2)[OF 2(1)] by auto
qed

theorem store_last_writer_wins_witness:
  "\<exists>st1 st2 item2.
     store_processed_log sample_worker_env 0 cold_start (queued ''001'' ''User 555-0199 accessed /api/login'')
        (ustr ''User [REDACTED] accessed /api/login'') 1 (ustr ''worker'') = (True, st1)
     \<and> store_processed_log sample_worker_env 0 st1 (queued ''001'' ''Call 555-555-1234'')
        (ustr ''Call [REDACTED]'') 2 (ustr ''worker'') = (True, st2)
     \<and> filter (\<lambda>x. item_key x = (Some (JStr (ustr ''acme'')), Some (JStr (ustr ''001'')))) (stored st2) = [item2]
     \<and> dict_get item2 (ustr ''modified_data'') = JStr (ustr ''Call [REDACTED]'')"
proof -
  let ?m1 = "queued ''001'' ''User 555-0199 accessed /api/login''"
  let ?m2 = "queued ''001'' ''Call 555-555-1234''"
  let ?d1 = "ustr ''User [REDACTED] accessed /api/login''"
  let ?d2 = "ustr ''Call [REDACTED]''"
  let ?w = "ustr ''worker''"
  have "fst (store_processed_log sample_worker_env 0 cold_start ?m1 ?d1 1 ?w) = True"
    by (simp add: worker_eval)
  then obtain st1 where w1: "store_processed_log sample_worker_env 0 cold_start ?m1 ?d1 1 ?w = (True, st1)"
    by (cases "store_processed_log sample_worker_env 0 cold_start ?m1 ?d1 1 ?w") simp
  have co: "coherent sample_worker_env st1"
    using store_rel[OF coherent_cold, of sample_worker_env 0 ?m1 ?d1 1 ?w] w1 by simp
  have "fst (store_processed_log sample_worker_env 0 cold_start ?m2 ?d2 2 ?w) = True"
    by (simp add: worker_eval)
  then have "fst (store_processed_log sample_worker_env 0 st1 ?m2 ?d2 2 ?w) = True"
    using store_rel[OF co, of 0 ?m2 ?d2 2 ?w] by simp
  then obtain st2 where w2: "store_processed_log sample_worker_env 0 st1 ?m2 ?d2 2 ?w = (True, st2)"
    by (cases "store_processed_log sample_worker_env 0 st1 ?m2 ?d2 2 ?w") simp
  have k: "dict_get ?m1 (ustr ''tenant_id'') = dict_get ?m2 (ustr ''tenant_id'')"
    "dict_get ?m1 (ustr ''log_id'') = dict_get ?m2 (ustr ''log_id'')"
    by (simp_all add: queued_def dict_get_def ustr_def)
  from store_last_writer_wins[OF w1 w2 k] obtain item1 item2 where
    r: "build_item sample_worker_env 0 ?m2 ?d2 2 ?w = Inr item2"
      "filter (\<lambda>x. item_key x = item_key item2) (stored st2) = [item2]"
      "dict_get item2 (ustr ''modified_data'') = JStr ?d2"
    by blast
  have "item_key item2 = (Some (JStr (ustr ''acme'')), Some (JStr (ustr ''001'')))"
    using build_item_fields(1)[OF r(1)] by (simp add: queued_def dict_get_def ustr_def)
  with r w1 w2 show ?thesis by auto
qed

text \<open>
  Claim C10: when \<open>process_message\<close> succeeds, the item it has put in the table holds the
  message's \<open>normalized_text\<close>, unredacted, as \<open>original_text\<close> and its redaction as
  \<open>modified_data\<close>; when it does not succeed, the table is unchanged.
\<close>

theorem persisted_keeps_original:
  "(process_message rt env i st mb rh w a = (Inr True, st') \<longrightarrow>
      (\<exists>d t item. mb = JObj d \<and> dict_get d (ustr ''normalized_text'') = JStr t
         \<and> stored st' = put_item (stored st) item \<and> item \<in> set (stored st')
         \<and> dict_get item (ustr ''original_text'') = JStr t
         \<and> dict_get item (ustr ''modified_data'') = JStr (redact_phone_numbers (unicode rt) t)))
   \<and> (process_message rt env i st mb rh w a = (x, st') \<longrightarrow> x \<noteq> Inr True \<longrightarrow> stored st' = stored st)"
proof (intro conjI impI)
  assume p: "process_message rt env i st mb rh w a = (Inr True, st')"
  then obtain d where d: "mb = JObj d"
    by (cases mb) (simp_all add: process_message_def)
  from p d obtain t where t: "dict_get d (ustr ''normalized_text'') = JStr t"
    by (cases "dict_get d (ustr ''normalized_text'')") (simp_all add: process_message_def)
  from p d t have s: "store_processed_log env i st d (redact_phone_numbers (unicode rt) t) a w = (True, st')"
    by (cases "store_processed_log env i st d (redact_phone_numbers (unicode rt) t) a w")
       (simp add: process_message_def split: if_splits)
  from store_True[OF s] obtain item where
    it: "build_item env i d (redact_phone_numbers (unicode rt) t) a w = Inr item"
      "stored st' = put_item (stored st) item" by blast
  show "\<exists>d t item. mb = JObj d \<and> dict_get d (ustr ''normalized_text'') = JStr t
         \<and> stored st' = put_item (stored st) item \<and> item \<in> set (stored st')
         \<and> dict_get item (ustr ''original_text'') = JStr t
         \<and> dict_get item (ustr ''modified_data'') = JStr (redact_phone_numbers (unicode rt) t)"
    using d t it build_item_fields(2,3)[OF it(1)] put_item_member by auto
next
  assume p: "process_message rt env i st mb rh w a = (x, st')" and x: "x \<noteq> Inr True"
  show "stored st' = stored st"
  proof (cases mb)
    case (JObj d)
    show ?thesis
    proof (cases "dict_get d (ustr ''normalized_text'')")
      case (JStr t)
      obtain ok st1 where s: "store_processed_log env i st d (redact_phone_numbers (unicode rt) t) a w = (ok, st1)"
        by (cases "store_processed_log env i st d (redact_phone_numbers (unicode rt) t) a w")
      from p x s JObj JStr have "ok = False" "st1 = st'"
        by (auto simp: process_message_def split: if_splits)
      then show ?thesis using store_False s by blast
    qed (use p JObj in \<open>auto simp: process_message_def\<close>)
  qed (use p in \<open>auto simp: process_message_def\<close>)
qed

theorem persisted_keeps_original_witness:
  "fst (process_message sample_runtime sample_worker_env 0 cold_start
          (JObj (queued ''001'' ''User 555-0199 accessed /api/login'')) (ustr ''handle'') (ustr ''worker'') 1) = Inr True
   \<and> (\<exists>item \<in> set (stored (snd (process_message sample_runtime sample_worker_env 0 cold_start
          (JObj (queued ''001'' ''User 555-0199 accessed /api/login'')) (ustr ''handle'') (ustr ''worker'') 1))).
         dict_get item (ustr ''original_text'') = JStr (ustr ''User 555-0199 accessed /api/login'')
         \<and> dict_get item (ustr ''modified_data'') = JStr (ustr ''User [REDACTED] accessed /api/login''))"
proof -
  let ?p = "process_message sample_runtime sample_worker_env 0 cold_start
          (JObj (queued ''001'' ''User 555-0199 accessed /api/login'')) (ustr ''handle'') (ustr ''worker'') 1"
  have f: "fst ?p = Inr True"
    by (simp add: worker_eval split_beta)
  then obtain st' where p: "?p = (Inr True, st')" by (cases ?p) simp
  from persisted_keeps_original[where x="Inr True" and st'=st', where rt=sample_runtime
      and env=sample_worker_env and i=0 and st=cold_start
      and mb="JObj (queued ''001'' ''User 555-0199 accessed /api/login'')"
      and rh="ustr ''handle''" and w="ustr ''worker''" and a=1] p
  obtain d t item where r: "JObj (queued ''001'' ''User 555-0199 accessed /api/login'') = JObj d"
      "dict_get d (ustr ''normalized_text'') = JStr t" "item \<in> set (stored st')"
      "dict_get item (ustr ''original_text'') = JStr t"
      "dict_get item (ustr ''modified_data'') = JStr (redact_phone_numbers (unicode sample_runtime) t)"
    by blast
  from r(1) have d: "d = queued ''001'' ''User 555-0199 accessed /api/login''" by simp
  from r(2) have t: "t = ustr ''User 555-0199 accessed /api/login''"
    unfolding d by (simp add: queued_def dict_get_def ustr_def)
  have "redact_phone_numbers (unicode sample_runtime) (ustr ''User 555-0199 accessed /api/login'')
      = ustr ''User [REDACTED] accessed /api/login''"
    by (simp add: redact_eval)
  with r t p f show ?thesis by auto
qed

end
